theory Spec2Isabelle
  imports Main "HOL-Library.Word"
begin

unbundle bit_operations_syntax

section \<open>i2cget (tools/i2cget.c): data\<close>

text \<open>
  The program is one C file: \<open>help\<close>, \<open>check_funcs\<close>, \<open>confirm\<close>, \<open>writeaddr\<close> and
  \<open>main\<close>. Everything it calls outside the file (libc, the kernel's i2c-dev interface,
  \<open>i2cbusses.c\<close>, \<open>util.c\<close>, \<open>libi2c\<close>) is a field of the record \<open>env\<close>: the reply the
  call gives. Each of these calls is made at most once in a run (\<open>strtol\<close> apart, which
  is a function of its argument), so one record of replies describes a whole run.
  What the program does to the outside is the list of \<open>event\<close>s of the run, in order,
  its standard output and its exit status.
\<close>

type_synonym byte = "8 word"

text \<open>The transfer types of \<open>linux/i2c.h\<close> that the program uses for \<open>size\<close>.\<close>

datatype smbus_size = I2C_SMBUS_BYTE | I2C_SMBUS_BYTE_DATA | I2C_SMBUS_WORD_DATA

text \<open>
  The messages written to \<open>stderr\<close>, one constructor for each \<open>fprintf(stderr, ...)\<close> of
  the file, with the arguments that the format prints.
\<close>

datatype diag =
    Usage
  | Length_not_specified
  | Unsupported_option string
  | Version_banner
  | Data_address_invalid
  | Invalid_mode
  | No_functionality_matrix
  | Missing_func string
  | Pec_unsupported_warning
  | Confuse_warning
  | Eeprom_stop
  | Write_byte_pec_warning
  | Will_read int int smbus_size
  | Pec_checking_enabled
  | Continue_prompt string
  | Aborting_on_user_request
  | Could_not_set_pec
  | Could_not_allocate
  | Write_failed_warning
  | Read_failed

datatype event =
    Stderr diag
  | Open_i2c_dev int
  | Ioctl_FUNCS
  | Set_slave_addr int bool
  | User_ack bool
  | Ioctl_PEC
  | Write "byte list"
  | Read int
  | Smbus_read_byte
  | Smbus_read_byte_data byte
  | Smbus_read_word_data byte
  | Close

text \<open>
  How a run ends: \<open>exit(n)\<close> (or \<open>return n\<close> from \<open>main\<close>), or an operation whose
  behaviour the C standard leaves undefined.
\<close>

datatype status = Exit int | Undefined

record outcome =
  status :: status
  stdout :: string
  events :: "event list"

text \<open>
  The replies of the outside world.
  \<^item> \<open>strtol s\<close>: the value \<open>strtol(s, &end, 0)\<close> returns and the rest of the string that
    \<open>end\<close> points to;
  \<^item> \<open>lookup_i2c_bus\<close>, \<open>parse_i2c_address\<close>, \<open>open_i2c_dev\<close>, \<open>set_slave_addr\<close>: the
    return values of these functions of \<open>i2cbusses.c\<close> and \<open>util.c\<close> (the messages
    that they print themselves, and the file name that \<open>open_i2c_dev\<close> stores, are left
    out);
  \<^item> \<open>ioctl_FUNCS\<close>: \<open>None\<close> when \<open>ioctl(file, I2C_FUNCS, &funcs)\<close> fails, else \<open>funcs\<close>;
  \<^item> \<open>user_ack def\<close>: what \<open>user_ack(def)\<close> of \<open>util.c\<close> returns for the operator's answer;
  \<^item> \<open>ioctl_PEC\<close>: the return value of \<open>ioctl(file, I2C_PEC, 1)\<close>;
  \<^item> \<open>calloc_ok\<close>: whether \<open>calloc\<close> finds the memory;
  \<^item> \<open>write_ret buf\<close>: the return value of \<open>write(file, buf, len)\<close>;
  \<^item> \<open>read_ret n\<close>: the return value of \<open>read(file, resbufptr, n)\<close> and the bytes it stored;
  \<^item> \<open>i2c_smbus_read_byte\<close>, \<open>i2c_smbus_read_byte_data\<close>, \<open>i2c_smbus_read_word_data\<close>:
    the return values of the \<open>libi2c\<close> calls; the last two take the register as their
    \<open>__u8 command\<close> parameter;
  \<^item> \<open>char_signed\<close>: whether plain \<open>char\<close> is a signed type on the platform (it is on
    x86 Linux, it is not on ARM Linux).
\<close>

record env =
  strtol :: "string \<Rightarrow> int \<times> string"
  lookup_i2c_bus :: "string \<Rightarrow> int"
  parse_i2c_address :: "string \<Rightarrow> int"
  open_i2c_dev :: "int \<Rightarrow> int"
  ioctl_FUNCS :: "32 word option"
  set_slave_addr :: "int \<Rightarrow> bool \<Rightarrow> int"
  user_ack :: "bool \<Rightarrow> bool"
  ioctl_PEC :: int
  calloc_ok :: bool
  write_ret :: "byte list \<Rightarrow> int"
  read_ret :: "int \<Rightarrow> int \<times> byte list"
  i2c_smbus_read_byte :: int
  i2c_smbus_read_byte_data :: "byte \<Rightarrow> int"
  i2c_smbus_read_word_data :: "byte \<Rightarrow> int"
  char_signed :: bool

text \<open>
  The local variables of \<open>main\<close>: those the option loop sets (\<open>opts\<close>), then all of them
  (\<open>cfg\<close>). \<open>length\<close> and \<open>size\<close> are \<open>length_v\<close> and \<open>size_v\<close> here.
\<close>

record opts =
  flags :: nat
  force :: bool
  yes :: bool
  version :: bool
  length_v :: int

record cfg = opts +
  i2cbus :: int
  address :: int
  size_v :: smbus_size
  daddress :: int
  daddrlen :: nat
  pec :: bool

section \<open>C arithmetic and strings\<close>

text \<open>An \<open>int\<close> has 32 bits; a \<open>long\<close> assigned to an \<open>int\<close> keeps its low 32 bits.\<close>

definition int_bits :: nat where
  "int_bits = 32"

definition to_int :: "int \<Rightarrow> int" where
  "to_int x = sint (word_of_int x :: 32 word)"

text \<open>An \<open>int\<close> passed for a \<open>__u8\<close> parameter keeps its low 8 bits.\<close>

definition to_u8 :: "int \<Rightarrow> byte" where
  "to_u8 x = word_of_int x"

text \<open>\<open>s[i]\<close> for \<open>i\<close> up to the terminating NUL of the string.\<close>

definition c_at :: "string \<Rightarrow> nat \<Rightarrow> char" where
  "c_at s i = (if i < length s then s ! i else CHR 0x00)"

subsection \<open>printf conversions\<close>

definition hex_digit :: "bool \<Rightarrow> nat \<Rightarrow> char" where
  "hex_digit upper d =
     (if upper then ''0123456789ABCDEF'' else ''0123456789abcdef'') ! d"

fun hex_of :: "bool \<Rightarrow> nat \<Rightarrow> string" where
  "hex_of upper n =
     (if n < 16 then [hex_digit upper n]
      else hex_of upper (n div 16) @ [hex_digit upper (n mod 16)])"

text \<open>\<open>%0wx\<close> (and \<open>%0wX\<close> when \<open>upper\<close>): at least \<open>w\<close> digits, padded with zeros.\<close>

definition printf_0x :: "bool \<Rightarrow> nat \<Rightarrow> nat \<Rightarrow> string" where
  "printf_0x upper w n =
     replicate (w - length (hex_of upper n)) (CHR ''0'') @ hex_of upper n"

text \<open>
  A \<open>char\<close> passed to \<open>printf\<close> is promoted to \<open>int\<close>, and \<open>%X\<close> reads that \<open>int\<close> as an
  \<open>unsigned int\<close>: the value of a signed \<open>char\<close> is taken modulo \<open>2 ^ 32\<close>.
\<close>

definition char_arg :: "bool \<Rightarrow> byte \<Rightarrow> nat" where
  "char_arg sc b = (if sc then nat (sint b mod 2 ^ int_bits) else unat b)"

section \<open>The functions of i2cget.c\<close>

subsection \<open>writeaddr\<close>

definition MAX_ADDR_LEN :: nat where
  "MAX_ADDR_LEN = 2"

definition writeaddr :: "env \<Rightarrow> int \<Rightarrow> nat \<Rightarrow> event list" where
  "writeaddr e adr len =
     (if 0 \<le> adr then
        (let len' = (if len > MAX_ADDR_LEN then MAX_ADDR_LEN else len);
             buf = map (\<lambda>i. word_of_int (drop_bit (8 * (len' - 1 - i)) adr AND 0xff)) [0..<len']
         in Write buf #
            (if write_ret e buf \<noteq> int len' then [Stderr Write_failed_warning] else []))
      else [])"

subsection \<open>The width of the data address (main, lines 233 to 236)\<close>

text \<open>
  \<open>while (daddress >> (8 * daddrlen)) ++daddrlen;\<close> on a non-negative \<open>int\<close>. Shifting an
  \<open>int\<close> by its width or more is undefined in C: the loop has no value then (\<open>None\<close>).
\<close>

function daddrlen_loop :: "int \<Rightarrow> nat \<Rightarrow> nat option" where
  "daddrlen_loop da dl =
     (if int_bits \<le> 8 * dl then None
      else if drop_bit (8 * dl) da \<noteq> 0 then daddrlen_loop da (dl + 1)
      else Some dl)"
  by pat_completeness auto
termination
  by (relation "measure (\<lambda>(d, n). 4 - n)") (auto simp: int_bits_def)

subsection \<open>check_funcs\<close>

text \<open>
  The capability bits of \<open>linux/i2c.h\<close> that \<open>check_funcs\<close> tests. The kernel reports the
  capabilities as a 32-bit mask, which \<open>check_funcs\<close> holds in an \<open>unsigned long\<close>.
\<close>

definition I2C_FUNC_I2C :: "32 word" where
  "I2C_FUNC_I2C = 0x00000001"

definition I2C_FUNC_SMBUS_PEC :: "32 word" where
  "I2C_FUNC_SMBUS_PEC = 0x00000008"

definition I2C_FUNC_SMBUS_READ_BYTE :: "32 word" where
  "I2C_FUNC_SMBUS_READ_BYTE = 0x00020000"

definition I2C_FUNC_SMBUS_WRITE_BYTE :: "32 word" where
  "I2C_FUNC_SMBUS_WRITE_BYTE = 0x00040000"

definition I2C_FUNC_SMBUS_READ_BYTE_DATA :: "32 word" where
  "I2C_FUNC_SMBUS_READ_BYTE_DATA = 0x00080000"

definition I2C_FUNC_SMBUS_READ_WORD_DATA :: "32 word" where
  "I2C_FUNC_SMBUS_READ_WORD_DATA = 0x00200000"

text \<open>
  The \<open>switch (size)\<close> of \<open>check_funcs\<close>: the name of the capability it reports missing
  (the argument of \<open>MISSING_FUNC_FMT\<close>), if any.
\<close>

definition funcs_switch :: "32 word \<Rightarrow> smbus_size \<Rightarrow> int \<Rightarrow> string option" where
  "funcs_switch funcs sz da =
     (case sz of
        I2C_SMBUS_BYTE \<Rightarrow>
          if funcs AND I2C_FUNC_SMBUS_READ_BYTE = 0 then Some ''SMBus receive byte''
          else if 0 \<le> da \<and> funcs AND I2C_FUNC_SMBUS_WRITE_BYTE = 0 then Some ''SMBus send byte''
          else None
      | I2C_SMBUS_BYTE_DATA \<Rightarrow>
          if funcs AND I2C_FUNC_SMBUS_READ_BYTE_DATA = 0 then Some ''SMBus read byte''
          else None
      | I2C_SMBUS_WORD_DATA \<Rightarrow>
          if funcs AND I2C_FUNC_SMBUS_READ_WORD_DATA = 0 then Some ''SMBus read word''
          else None)"

text \<open>\<open>check_funcs(file, size, daddress, pec)\<close>: the return value and what it did.\<close>

definition check_funcs :: "env \<Rightarrow> smbus_size \<Rightarrow> int \<Rightarrow> bool \<Rightarrow> int \<times> event list" where
  "check_funcs e sz da p =
     (case ioctl_FUNCS e of
        None \<Rightarrow> (- 1, [Ioctl_FUNCS, Stderr No_functionality_matrix])
      | Some funcs \<Rightarrow>
          (case funcs_switch funcs sz da of
             Some name \<Rightarrow> (- 1, [Ioctl_FUNCS, Stderr (Missing_func name)])
           | None \<Rightarrow>
               (0, Ioctl_FUNCS #
                   (if p \<and> funcs AND (I2C_FUNC_SMBUS_PEC OR I2C_FUNC_I2C) = 0
                    then [Stderr Pec_unsupported_warning] else []))))"

subsection \<open>confirm\<close>

text \<open>
  \<open>confirm(filename, address, size, daddress, pec)\<close>: whether it returns 1, and what it
  did. \<open>User_ack d\<close> is the call \<open>user_ack(d)\<close>.
\<close>

definition confirm :: "env \<Rightarrow> int \<Rightarrow> smbus_size \<Rightarrow> int \<Rightarrow> bool \<Rightarrow> bool \<times> event list" where
  "confirm e ad sz da p =
     (if 0x50 \<le> ad \<and> ad \<le> 0x57 \<and> p
      then (False, [Stderr Confuse_warning, Stderr Eeprom_stop])
      else
        (let dont = (sz = I2C_SMBUS_BYTE \<and> 0 \<le> da \<and> p);
             evs = [Stderr Confuse_warning]
                 @ (if dont then [Stderr Write_byte_pec_warning] else [])
                 @ [Stderr (Will_read ad da sz)]
                 @ (if p then [Stderr Pec_checking_enabled] else [])
                 @ [Stderr (Continue_prompt (if dont then ''y/N'' else ''Y/n'')),
                    User_ack (\<not> dont)]
         in if \<not> user_ack e (\<not> dont)
            then (False, evs @ [Stderr Aborting_on_user_request])
            else (True, evs)))"

subsection \<open>main: the command line\<close>

definition exit_with :: "int \<Rightarrow> event list \<Rightarrow> outcome" where
  "exit_with n evs = \<lparr>status = Exit n, stdout = [], events = evs\<rparr>"

text \<open>\<open>help()\<close> (here \<open>help_c\<close>) prints the usage and exits with 1.\<close>

definition help_c :: "event list \<Rightarrow> outcome" where
  "help_c evs = exit_with 1 (evs @ [Stderr Usage])"

definition opts0 :: opts where
  "opts0 = \<lparr>flags = 0, force = False, yes = False, version = False, length_v = 0\<rparr>"

text \<open>The option loop (lines 186 to 212). \<open>argc\<close> is \<open>length argv\<close>.\<close>

function parse_flags :: "env \<Rightarrow> string list \<Rightarrow> opts \<Rightarrow> outcome + opts" where
  "parse_flags e argv v =
     (if 1 + flags v < length argv \<and> c_at (argv ! (1 + flags v)) 0 = CHR ''-'' then
        (let a = argv ! (1 + flags v); c = c_at a 1 in
         if c = CHR ''V'' then parse_flags e argv (v\<lparr>version := True, flags := flags v + 1\<rparr>)
         else if c = CHR ''f'' then parse_flags e argv (v\<lparr>force := True, flags := flags v + 1\<rparr>)
         else if c = CHR ''y'' then parse_flags e argv (v\<lparr>yes := True, flags := flags v + 1\<rparr>)
         else if c = CHR ''l'' then
           (let r1 = strtol e (drop 2 a);
                next_arg = (snd r1 = [] \<and> to_int (fst r1) = 0 \<and> 2 + flags v < length argv);
                r = (if next_arg then strtol e (argv ! (2 + flags v)) else r1);
                fl = (if next_arg then flags v + 1 else flags v)
            in if snd r \<noteq> [] \<or> to_int (fst r) = 0
               then Inl (exit_with 1 [Stderr Length_not_specified])
               else parse_flags e argv (v\<lparr>length_v := to_int (fst r), flags := fl + 1\<rparr>))
         else Inl (help_c [Stderr (Unsupported_option a)]))
      else Inr v)"
  by pat_completeness auto
termination
  by (relation "measure (\<lambda>(e, argv, v). length argv - flags v)") auto

text \<open>
  Lines 230 to 244: \<open>size\<close>, \<open>daddress\<close> and \<open>daddrlen\<close> from the data address argument.
\<close>

definition parse_daddress ::
  "env \<Rightarrow> string list \<Rightarrow> opts \<Rightarrow> outcome + (smbus_size \<times> int \<times> nat)" where
  "parse_daddress e argv v =
     (if length argv > flags v + 3 then
        (let r = strtol e (argv ! (flags v + 3)); da = to_int (fst r) in
         if snd r = [] \<and> 0 \<le> da then
           (case daddrlen_loop da 0 of
              None \<Rightarrow> Inl \<lparr>status = Undefined, stdout = [], events = []\<rparr>
            | Some dl \<Rightarrow> Inr (I2C_SMBUS_BYTE_DATA, da, dl))
         else Inl (help_c [Stderr Data_address_invalid]))
      else Inr (I2C_SMBUS_BYTE, - 1, 0))"

text \<open>Lines 246 to 256: \<open>size\<close> and \<open>pec\<close> from the mode argument.\<close>

definition parse_mode ::
  "string list \<Rightarrow> opts \<Rightarrow> smbus_size \<Rightarrow> outcome + (smbus_size \<times> bool)" where
  "parse_mode argv v sz =
     (if length argv > flags v + 4 then
        (let m = argv ! (flags v + 4); c = c_at m 0 in
         if c = CHR ''b'' then Inr (I2C_SMBUS_BYTE_DATA, c_at m 1 = CHR ''p'')
         else if c = CHR ''w'' then Inr (I2C_SMBUS_WORD_DATA, c_at m 1 = CHR ''p'')
         else if c = CHR ''c'' then Inr (I2C_SMBUS_BYTE, c_at m 1 = CHR ''p'')
         else Inl (help_c [Stderr Invalid_mode]))
      else Inr (sz, False))"

text \<open>Lines 186 to 256: the variables of \<open>main\<close> when the device is about to be opened.\<close>

definition parse_args :: "env \<Rightarrow> string list \<Rightarrow> outcome + cfg" where
  "parse_args e argv =
     (case parse_flags e argv opts0 of
        Inl out \<Rightarrow> Inl out
      | Inr v \<Rightarrow>
          if version v then Inl (exit_with 0 [Stderr Version_banner])
          else if length argv < flags v + 3 then Inl (help_c [])
          else if lookup_i2c_bus e (argv ! (flags v + 1)) < 0 then Inl (help_c [])
          else if parse_i2c_address e (argv ! (flags v + 2)) < 0 then Inl (help_c [])
          else
            (case parse_daddress e argv v of
               Inl out \<Rightarrow> Inl out
             | Inr (sz0, da, dl) \<Rightarrow>
                 (case parse_mode argv v sz0 of
                    Inl out \<Rightarrow> Inl out
                  | Inr (sz, p) \<Rightarrow>
                      Inr \<lparr>flags = flags v, force = force v, yes = yes v,
                           version = version v, length_v = length_v v,
                           i2cbus = lookup_i2c_bus e (argv ! (flags v + 1)),
                           address = parse_i2c_address e (argv ! (flags v + 2)),
                           size_v = sz, daddress = da, daddrlen = dl, pec = p\<rparr>)))"

subsection \<open>main: the output (lines 300 to 333)\<close>

text \<open>The two loops over \<open>resbufptr\<close>; \<open>buf\<close> holds the first \<open>len\<close> bytes of the buffer.\<close>

definition print_raw :: "bool \<Rightarrow> int \<Rightarrow> byte list \<Rightarrow> string" where
  "print_raw sc len buf =
     (if len = 1 \<or> len = 2 \<or> len = 4 \<or> len = 8
      then ''0x'' @ concat (map (\<lambda>i. printf_0x True 2 (char_arg sc (buf ! i))) [0..<nat len])
           @ [CHR 0x0A]
      else concat (map (\<lambda>i. (if 0 < i then '' '' else [])
                          @ ''0x'' @ printf_0x True 2 (char_arg sc (buf ! i))) [0..<nat len])
           @ [CHR 0x0A])"

definition main_print :: "env \<Rightarrow> cfg \<Rightarrow> event list \<Rightarrow> int \<Rightarrow> byte list \<Rightarrow> outcome" where
  "main_print e c evs res buf =
     (if length_v c \<noteq> 0 then
        (if length_v c \<noteq> res then exit_with 2 (evs @ [Stderr Read_failed])
         else \<lparr>status = Exit 0, stdout = print_raw (char_signed e) (length_v c) buf,
               events = evs\<rparr>)
      else if res < 0 then exit_with 2 (evs @ [Stderr Read_failed])
      else \<lparr>status = Exit 0,
            stdout = ''0x'' @ printf_0x False (if size_v c = I2C_SMBUS_WORD_DATA then 4 else 2)
                       (nat res) @ [CHR 0x0A],
            events = evs\<rparr>)"

subsection \<open>main: the transaction (lines 274 to 298)\<close>

text \<open>
  \<open>calloc(length, sizeof(int))\<close> takes its count as a \<open>size_t\<close>: a negative \<open>length\<close> is a
  count of more than \<open>SIZE_MAX / 4\<close> elements, the product overflows and \<open>calloc\<close> returns
  \<open>NULL\<close>. The buffer is zeroed, and \<open>read\<close> stores the bytes it read at its start.
  \<open>i2c_smbus_read_byte_data\<close> and \<open>i2c_smbus_read_word_data\<close> are called with the \<open>int\<close>
  \<open>daddress\<close> for their \<open>__u8\<close> parameter: the call converts it (\<open>to_u8\<close>).
\<close>

definition main_transaction :: "env \<Rightarrow> cfg \<Rightarrow> event list \<Rightarrow> outcome" where
  "main_transaction e c evs =
     (if length_v c \<noteq> 0 then
        (if length_v c < 0 \<or> \<not> calloc_ok e
         then exit_with 1 (evs @ [Stderr Could_not_allocate, Close])
         else
           (let n = nat (length_v c); r = read_ret e (length_v c)
            in main_print e c
                 (evs @ writeaddr e (daddress c) (daddrlen c) @ [Read (length_v c), Close])
                 (fst r) (take n (snd r @ replicate n 0))))
      else
        (case size_v c of
           I2C_SMBUS_BYTE \<Rightarrow>
             main_print e c
               (evs @ writeaddr e (daddress c) (daddrlen c) @ [Smbus_read_byte, Close])
               (i2c_smbus_read_byte e) []
         | I2C_SMBUS_WORD_DATA \<Rightarrow>
             main_print e c (evs @ [Smbus_read_word_data (to_u8 (daddress c)), Close])
               (i2c_smbus_read_word_data e (to_u8 (daddress c))) []
         | I2C_SMBUS_BYTE_DATA \<Rightarrow>
             main_print e c (evs @ [Smbus_read_byte_data (to_u8 (daddress c)), Close])
               (i2c_smbus_read_byte_data e (to_u8 (daddress c))) []))"

subsection \<open>main: opening the device, the checks, the confirmation, PEC (lines 258 to 272)\<close>

definition main_pec :: "env \<Rightarrow> cfg \<Rightarrow> event list \<Rightarrow> outcome" where
  "main_pec e c evs =
     (if pec c then
        (if ioctl_PEC e < 0
         then exit_with 1 (evs @ [Ioctl_PEC, Stderr Could_not_set_pec, Close])
         else main_transaction e c (evs @ [Ioctl_PEC]))
      else main_transaction e c evs)"

definition main_confirm :: "env \<Rightarrow> cfg \<Rightarrow> event list \<Rightarrow> outcome" where
  "main_confirm e c evs =
     (if \<not> yes c then
        (let r = confirm e (address c) (size_v c) (daddress c) (pec c) in
         if \<not> fst r then exit_with 0 (evs @ snd r)
         else main_pec e c (evs @ snd r))
      else main_pec e c evs)"

definition main_open :: "env \<Rightarrow> cfg \<Rightarrow> outcome" where
  "main_open e c =
     (let file = open_i2c_dev e (i2cbus c) in
      if file < 0 then exit_with 1 [Open_i2c_dev file]
      else
        (let r = check_funcs e (size_v c) (daddress c) (pec c) in
         if fst r \<noteq> 0 then exit_with 1 (Open_i2c_dev file # snd r)
         else if set_slave_addr e (address c) (force c) \<noteq> 0
           then exit_with 1 (Open_i2c_dev file # snd r @ [Set_slave_addr (address c) (force c)])
         else main_confirm e c
                (Open_i2c_dev file # snd r @ [Set_slave_addr (address c) (force c)])))"

definition main :: "env \<Rightarrow> string list \<Rightarrow> outcome" where
  "main e argv = (case parse_args e argv of Inl out \<Rightarrow> out | Inr c \<Rightarrow> main_open e c)"

section \<open>Reading a run\<close>

text \<open>The events that read from the device.\<close>

fun is_bus_read :: "event \<Rightarrow> bool" where
  "is_bus_read (Read n) = True"
| "is_bus_read Smbus_read_byte = True"
| "is_bus_read (Smbus_read_byte_data a) = True"
| "is_bus_read (Smbus_read_word_data a) = True"
| "is_bus_read ev = False"

definition bus_reads :: "event list \<Rightarrow> event list" where
  "bus_reads evs = filter is_bus_read evs"

text \<open>Big-endian decoding of a list of bytes.\<close>

definition decode_be :: "byte list \<Rightarrow> nat" where
  "decode_be bs = foldl (\<lambda>acc b. acc * 256 + unat b) 0 bs"

fun is_stderr :: "event \<Rightarrow> bool" where
  "is_stderr (Stderr d) = True"
| "is_stderr ev = False"

text \<open>
  The checks of lines 258 to 272: those a run must pass to get to the confirmation
  (\<open>reaches_confirm\<close>) and to the transaction (\<open>passes_checks\<close>), and the events it has
  produced when it gets to the transaction (\<open>pre_events\<close>).
\<close>

definition reaches_confirm :: "env \<Rightarrow> cfg \<Rightarrow> bool" where
  "reaches_confirm e c =
     (0 \<le> open_i2c_dev e (i2cbus c)
      \<and> fst (check_funcs e (size_v c) (daddress c) (pec c)) = 0
      \<and> set_slave_addr e (address c) (force c) = 0)"

definition passes_checks :: "env \<Rightarrow> cfg \<Rightarrow> bool" where
  "passes_checks e c =
     (reaches_confirm e c
      \<and> (yes c \<or> fst (confirm e (address c) (size_v c) (daddress c) (pec c)))
      \<and> (if pec c then 0 \<le> ioctl_PEC e else True))"

definition pre_events :: "env \<Rightarrow> cfg \<Rightarrow> event list" where
  "pre_events e c =
     Open_i2c_dev (open_i2c_dev e (i2cbus c))
     # snd (check_funcs e (size_v c) (daddress c) (pec c))
     @ [Set_slave_addr (address c) (force c)]
     @ (if yes c then [] else snd (confirm e (address c) (size_v c) (daddress c) (pec c)))
     @ (if pec c then [Ioctl_PEC] else [])"

section \<open>A sample environment\<close>

text \<open>
  An adapter and a device on which every call succeeds. \<open>strtol_sample\<close> lists the
  replies of \<open>strtol\<close> to the strings that the examples below pass to it (the empty
  string is what follows \<open>-l\<close> in the argument \<open>-l\<close>); the bus argument and the chip
  address are read by \<open>lookup_i2c_bus\<close> and \<open>parse_i2c_address\<close>. The operator answers
  the confirmation with an empty line, the device returns the bytes \<open>0x80, 0x01, 0x02, ...\<close>
  to a raw read, and plain \<open>char\<close> is signed as on x86 Linux.
\<close>

definition strtol_sample :: "string \<Rightarrow> int \<times> string" where
  "strtol_sample s =
     (if s = ''0'' then (0, [])
      else if s = ''0x00'' then (0, [])
      else if s = ''1'' then (1, [])
      else if s = ''2'' then (2, [])
      else if s = ''3'' then (3, [])
      else if s = ''4'' then (4, [])
      else if s = ''-1'' then (- 1, [])
      else if s = ''0x10'' then (16, [])
      else if s = ''0x1234'' then (4660, [])
      else if s = ''0x123456'' then (1193046, [])
      else if s = ''0x1000000'' then (16777216, [])
      else (0, s))"

definition env_ok :: env where
  "env_ok =
     \<lparr>strtol = strtol_sample,
      lookup_i2c_bus = (\<lambda>s. if s = ''1'' then 1 else - 1),
      parse_i2c_address =
        (\<lambda>s. if s = ''0x48'' then 0x48 else if s = ''0x50'' then 0x50 else - 1),
      open_i2c_dev = (\<lambda>bus. 3),
      ioctl_FUNCS = Some 0x0EFF0009,
      set_slave_addr = (\<lambda>a f. 0),
      user_ack = (\<lambda>d. d),
      ioctl_PEC = 0,
      calloc_ok = True,
      write_ret = (\<lambda>buf. int (length buf)),
      read_ret = (\<lambda>n. (n, take (nat n) [0x80, 0x01, 0x02, 0x03, 0x04, 0x05, 0x06, 0x07])),
      i2c_smbus_read_byte = 0x2a,
      i2c_smbus_read_byte_data = (\<lambda>a. 0x2a),
      i2c_smbus_read_word_data = (\<lambda>a. 0xbeef),
      char_signed = True\<rparr>"

section \<open>Evaluation\<close>

declare hex_of.simps [simp del]
declare daddrlen_loop.simps [simp del]
declare parse_flags.simps [simp del]

section \<open>Facts about the stages of a run\<close>

lemma daddrlen_loop_0: "daddrlen_loop 0 0 = Some 0"
  by (simp add: daddrlen_loop.simps int_bits_def)

lemma daddrlen_loop_cases:
  assumes "0 \<le> a"
  shows "daddrlen_loop a 0 =
           (if a = 0 then Some 0 else if a < 2 ^ 8 then Some 1 else if a < 2 ^ 16 then Some 2
            else if a < 2 ^ 24 then Some 3 else None)"
proof -
  have l4: "daddrlen_loop a 4 = None"
    by (simp add: daddrlen_loop.simps [of a 4] int_bits_def)
  have l3: "daddrlen_loop a 3 = (if a < 2 ^ 24 then Some 3 else None)"
    using assms l4 by (simp add: daddrlen_loop.simps [of a 3] int_bits_def drop_bit_eq_div zdiv_eq_0_iff)
  have l2: "daddrlen_loop a 2 = (if a < 2 ^ 16 then Some 2 else daddrlen_loop a 3)"
    using assms by (simp add: daddrlen_loop.simps [of a 2] int_bits_def drop_bit_eq_div zdiv_eq_0_iff)
  have l1: "daddrlen_loop a (Suc 0) = (if a < 2 ^ 8 then Some 1 else daddrlen_loop a 2)"
    using assms by (simp add: daddrlen_loop.simps [of a "Suc 0"] int_bits_def drop_bit_eq_div zdiv_eq_0_iff numeral_2_eq_2)
  have l0: "daddrlen_loop a 0 = (if a = 0 then Some 0 else daddrlen_loop a (Suc 0))"
    using assms by (simp add: daddrlen_loop.simps [of a 0] int_bits_def)
  show ?thesis
    using assms by (simp add: l0 l1 l2 l3)
qed

lemma parse_flags_Inl:
  "parse_flags e argv v = Inl out \<Longrightarrow>
     status out = Exit 1 \<and> stdout out = [] \<and> list_all is_stderr (events out)"
proof (induction e argv v rule: parse_flags.induct)
  case (1 e argv v)
  show ?case
    using "1.prems" "1.IH"
    apply (subst (asm) parse_flags.simps)
    apply (auto simp: Let_def exit_with_def help_c_def split: if_splits)
    done
qed

lemma parse_args_InrD:
  assumes "parse_args e argv = Inr c"
  shows "\<exists>v sz0. parse_flags e argv opts0 = Inr v \<and> \<not> version v \<and> flags v + 3 \<le> length argv
           \<and> parse_daddress e argv v = Inr (sz0, daddress c, daddrlen c)
           \<and> parse_mode argv v sz0 = Inr (size_v c, pec c)
           \<and> flags c = flags v \<and> yes c = yes v \<and> force c = force v \<and> length_v c = length_v v
           \<and> 0 \<le> i2cbus c \<and> 0 \<le> address c"
  using assms
  by (auto simp: parse_args_def split: sum.splits if_splits prod.splits)

lemma bus_reads_Nil [simp]: "bus_reads [] = []"
  by (simp add: bus_reads_def)

lemma bus_reads_Cons [simp]:
  "bus_reads (x # xs) = (if is_bus_read x then x # bus_reads xs else bus_reads xs)"
  by (simp add: bus_reads_def)

lemma bus_reads_append [simp]: "bus_reads (xs @ ys) = bus_reads xs @ bus_reads ys"
  by (simp add: bus_reads_def)

lemma bus_reads_writeaddr [simp]: "bus_reads (writeaddr e a n) = []"
  by (simp add: writeaddr_def Let_def)

lemma bus_reads_check_funcs [simp]: "bus_reads (snd (check_funcs e sz da p)) = []"
  by (simp add: check_funcs_def split: option.splits)

lemma bus_reads_confirm [simp]: "bus_reads (snd (confirm e ad sz da p)) = []"
  by (simp add: confirm_def Let_def)

lemma bus_reads_pre_events [simp]: "bus_reads (pre_events e c) = []"
  by (simp add: pre_events_def)

lemma main_open_passes:
  "passes_checks e c \<Longrightarrow> main_open e c = main_transaction e c (pre_events e c)"
  by (cases "yes c"; cases "pec c")
    (simp_all add: passes_checks_def reaches_confirm_def main_open_def main_confirm_def main_pec_def pre_events_def
      Let_def)

lemma main_transaction_reads:
  "bus_reads (events (main_transaction e c evs)) =
     bus_reads evs @
       (if length_v c \<noteq> 0 then (if length_v c < 0 \<or> \<not> calloc_ok e then [] else [Read (length_v c)])
        else [case size_v c of I2C_SMBUS_BYTE \<Rightarrow> Smbus_read_byte
              | I2C_SMBUS_BYTE_DATA \<Rightarrow> Smbus_read_byte_data (to_u8 (daddress c))
              | I2C_SMBUS_WORD_DATA \<Rightarrow> Smbus_read_word_data (to_u8 (daddress c))])"
  by (simp add: main_transaction_def main_print_def exit_with_def Let_def
      split: smbus_size.splits)

lemma main_open_fails:
  assumes "\<not> passes_checks e c"
  shows "stdout (main_open e c) = [] \<and> bus_reads (events (main_open e c)) = []
         \<and> (status (main_open e c) = Exit 0 \<or> status (main_open e c) = Exit 1)"
  using assms
  by (cases "yes c"; cases "pec c")
    (auto simp add: passes_checks_def reaches_confirm_def main_open_def main_confirm_def main_pec_def exit_with_def
      Let_def)

lemma parse_daddress_Inr:
  assumes "parse_daddress e argv v = Inr (sz0, da, dl)"
  shows "if flags v + 3 < length argv
         then sz0 = I2C_SMBUS_BYTE_DATA \<and> 0 \<le> da \<and> daddrlen_loop da 0 = Some dl
         else sz0 = I2C_SMBUS_BYTE \<and> da = - 1 \<and> dl = 0"
  using assms
  by (simp add: parse_daddress_def Let_def split: if_splits option.splits)

lemma parse_mode_Inr:
  assumes "parse_mode argv v sz0 = Inr (sz, p)"
  shows "if flags v + 4 < length argv
         then p = (c_at (argv ! (flags v + 4)) 1 = CHR ''p'') \<and>
              (c_at (argv ! (flags v + 4)) 0 = CHR ''b'' \<and> sz = I2C_SMBUS_BYTE_DATA
               \<or> c_at (argv ! (flags v + 4)) 0 = CHR ''w'' \<and> sz = I2C_SMBUS_WORD_DATA
               \<or> c_at (argv ! (flags v + 4)) 0 = CHR ''c'' \<and> sz = I2C_SMBUS_BYTE)
         else sz = sz0 \<and> \<not> p"
  using assms
  by (simp add: parse_mode_def Let_def split: if_splits)

lemma parse_args_Inl:
  assumes "parse_args e argv = Inl out"
  shows "stdout out = [] \<and> list_all is_stderr (events out)"
proof (cases "parse_flags e argv opts0")
  case (Inl o1)
  with assms parse_flags_Inl [OF Inl] show ?thesis
    by (simp add: parse_args_def)
next
  case (Inr v)
  with assms show ?thesis
    by (auto simp: parse_args_def parse_daddress_def parse_mode_def exit_with_def help_c_def
        Let_def split: if_splits sum.splits option.splits prod.splits)
qed

lemma main_Inr: "parse_args e argv = Inr c \<Longrightarrow> main e argv = main_open e c"
  by (simp add: main_def)

lemma parse_args_argv:
  assumes "parse_args e argv = Inr c"
  shows "flags c + 3 \<le> length argv"
    and "(0 \<le> daddress c) = (flags c + 3 < length argv)"
    and "flags c + 3 < length argv \<Longrightarrow> daddrlen_loop (daddress c) 0 = Some (daddrlen c)"
    and "\<not> flags c + 3 < length argv \<Longrightarrow> daddress c = - 1 \<and> daddrlen c = 0"
    and "pec c = (flags c + 4 < length argv \<and> c_at (argv ! (flags c + 4)) 1 = CHR ''p'')"
    and "size_v c =
           (if length argv \<le> flags c + 3 then I2C_SMBUS_BYTE
            else if length argv = flags c + 4 then I2C_SMBUS_BYTE_DATA
            else if c_at (argv ! (flags c + 4)) 0 = CHR ''b'' then I2C_SMBUS_BYTE_DATA
            else if c_at (argv ! (flags c + 4)) 0 = CHR ''w'' then I2C_SMBUS_WORD_DATA
            else I2C_SMBUS_BYTE)"
    and "flags c + 4 < length argv \<Longrightarrow>
           c_at (argv ! (flags c + 4)) 0 = CHR ''b'' \<or> c_at (argv ! (flags c + 4)) 0 = CHR ''w''
           \<or> c_at (argv ! (flags c + 4)) 0 = CHR ''c''"
proof -
  from parse_args_InrD [OF assms] obtain v sz0 where
    v: "flags v + 3 \<le> length argv" "flags c = flags v"
    and d: "parse_daddress e argv v = Inr (sz0, daddress c, daddrlen c)"
    and m: "parse_mode argv v sz0 = Inr (size_v c, pec c)"
    by blast
  note D = parse_daddress_Inr [OF d] and M = parse_mode_Inr [OF m]
  show "flags c + 3 \<le> length argv" using v by simp
  show "(0 \<le> daddress c) = (flags c + 3 < length argv)"
    using D v by (simp split: if_splits)
  show "flags c + 3 < length argv \<Longrightarrow> daddrlen_loop (daddress c) 0 = Some (daddrlen c)"
    using D v by (simp split: if_splits)
  show "\<not> flags c + 3 < length argv \<Longrightarrow> daddress c = - 1 \<and> daddrlen c = 0"
    using D v by (simp split: if_splits)
  show "pec c = (flags c + 4 < length argv \<and> c_at (argv ! (flags c + 4)) 1 = CHR ''p'')"
    using M v by (simp split: if_splits)
  show "size_v c =
           (if length argv \<le> flags c + 3 then I2C_SMBUS_BYTE
            else if length argv = flags c + 4 then I2C_SMBUS_BYTE_DATA
            else if c_at (argv ! (flags c + 4)) 0 = CHR ''b'' then I2C_SMBUS_BYTE_DATA
            else if c_at (argv ! (flags c + 4)) 0 = CHR ''w'' then I2C_SMBUS_WORD_DATA
            else I2C_SMBUS_BYTE)"
    using D M v by (auto split: if_splits)
  show "flags c + 4 < length argv \<Longrightarrow>
           c_at (argv ! (flags c + 4)) 0 = CHR ''b'' \<or> c_at (argv ! (flags c + 4)) 0 = CHR ''w''
           \<or> c_at (argv ! (flags c + 4)) 0 = CHR ''c''"
    using M v by (auto split: if_splits)
qed

lemma events_main_print:
  "ev \<in> set (events (main_print e c evs r b)) \<Longrightarrow> ev \<in> set evs \<or> ev = Stderr Read_failed"
  by (auto simp: main_print_def exit_with_def split: if_splits)

lemma events_main_transaction:
  assumes "ev \<in> set (events (main_transaction e c evs))"
  shows "ev \<in> set evs \<or> ev \<in> set (writeaddr e (daddress c) (daddrlen c))
         \<or> ev = Close \<or> ev = Stderr Could_not_allocate \<or> ev = Stderr Read_failed
         \<or> is_bus_read ev"
  using assms
  by (auto simp: main_transaction_def exit_with_def Let_def
      split: if_splits smbus_size.splits dest!: events_main_print)

lemma events_main_open:
  assumes "ev \<in> set (events (main_open e c))"
  shows "ev \<in> set (pre_events e c) \<or> ev \<in> set (writeaddr e (daddress c) (daddrlen c))
         \<or> ev = Close \<or> ev = Stderr Could_not_set_pec \<or> ev = Stderr Could_not_allocate
         \<or> ev = Stderr Read_failed \<or> is_bus_read ev"
proof (cases "passes_checks e c")
  case True
  with assms events_main_transaction [of ev e c "pre_events e c"] show ?thesis
    by (auto simp: main_open_passes)
next
  case False
  with assms show ?thesis
    by (cases "yes c"; cases "pec c")
      (auto simp: passes_checks_def reaches_confirm_def main_open_def main_confirm_def
        main_pec_def exit_with_def pre_events_def Let_def split: if_splits)
qed

lemma User_ack_pre_events:
  assumes "User_ack d \<in> set (pre_events e c)"
  shows "\<not> yes c \<and> \<not> (0x50 \<le> address c \<and> address c \<le> 0x57 \<and> pec c)
         \<and> d = (\<not> (size_v c = I2C_SMBUS_BYTE \<and> 0 \<le> daddress c \<and> pec c))"
  using assms
  by (auto simp: pre_events_def check_funcs_def confirm_def Let_def
      split: if_splits option.splits)

lemma Continue_prompt_pre_events:
  assumes "Stderr (Continue_prompt s) \<in> set (pre_events e c)"
  shows "\<not> yes c \<and> \<not> (0x50 \<le> address c \<and> address c \<le> 0x57 \<and> pec c)
         \<and> s = (if size_v c = I2C_SMBUS_BYTE \<and> 0 \<le> daddress c \<and> pec c then ''y/N'' else ''Y/n'')"
  using assms
  by (auto simp: pre_events_def check_funcs_def confirm_def Let_def
      split: if_splits option.splits)

lemma Eeprom_stop_pre_events:
  "Stderr Eeprom_stop \<in> set (pre_events e c) \<Longrightarrow> \<not> yes c"
  by (auto simp: pre_events_def check_funcs_def confirm_def Let_def
      split: if_splits option.splits)

lemma Ioctl_PEC_pre_events:
  "Ioctl_PEC \<in> set (pre_events e c) \<Longrightarrow> pec c"
  by (auto simp: pre_events_def check_funcs_def confirm_def Let_def
      split: if_splits option.splits)

lemma Write_pre_events:
  "Write bs \<notin> set (pre_events e c)"
  by (auto simp: pre_events_def check_funcs_def confirm_def Let_def
      split: if_splits option.splits)

lemma bus_reads_main_open:
  "bus_reads (events (main_open e c)) =
     (if passes_checks e c \<and> (length_v c = 0 \<or> 0 < length_v c \<and> calloc_ok e)
      then [if length_v c \<noteq> 0 then Read (length_v c)
            else case size_v c of I2C_SMBUS_BYTE \<Rightarrow> Smbus_read_byte
              | I2C_SMBUS_BYTE_DATA \<Rightarrow> Smbus_read_byte_data (to_u8 (daddress c))
              | I2C_SMBUS_WORD_DATA \<Rightarrow> Smbus_read_word_data (to_u8 (daddress c))]
      else [])"
proof (cases "passes_checks e c")
  case True
  then show ?thesis
    by (auto simp: main_open_passes main_transaction_reads)
next
  case False
  with main_open_fails [OF False] show ?thesis by simp
qed

lemma Read_in_events:
  assumes "Read n \<in> set (events (main_open e c))"
  shows "passes_checks e c \<and> n = length_v c \<and> 0 < n \<and> calloc_ok e"
proof -
  from assms have "Read n \<in> set (bus_reads (events (main_open e c)))"
    by (simp add: bus_reads_def)
  then show ?thesis
    by (auto simp: bus_reads_main_open split: if_splits smbus_size.splits)
qed

lemma evs_in_main_print:
  "ev \<in> set evs \<Longrightarrow> ev \<in> set (events (main_print e c evs r b))"
  by (simp add: main_print_def exit_with_def)

lemma evs_in_main_transaction:
  "ev \<in> set evs \<Longrightarrow> ev \<in> set (events (main_transaction e c evs))"
  by (simp add: main_transaction_def exit_with_def evs_in_main_print Let_def
      split: smbus_size.splits)

lemma evs_in_main_pec:
  "ev \<in> set evs \<Longrightarrow> ev \<in> set (events (main_pec e c evs))"
  by (simp add: main_pec_def exit_with_def evs_in_main_transaction)

lemma confirm_events_in_run:
  assumes "reaches_confirm e c" and "\<not> yes c"
    and "ev \<in> set (snd (confirm e (address c) (size_v c) (daddress c) (pec c)))"
  shows "ev \<in> set (events (main_open e c))"
  using assms
  by (simp add: reaches_confirm_def main_open_def main_confirm_def Let_def exit_with_def
      evs_in_main_pec)

lemma declined_run:
  assumes "reaches_confirm e c" and "\<not> yes c"
    and "\<not> fst (confirm e (address c) (size_v c) (daddress c) (pec c))"
  shows "status (main_open e c) = Exit 0 \<and> stdout (main_open e c) = []
         \<and> bus_reads (events (main_open e c)) = []"
proof -
  from assms have "\<not> passes_checks e c"
    by (simp add: passes_checks_def)
  from main_open_fails [OF this] assms show ?thesis
    by (simp add: reaches_confirm_def main_open_def main_confirm_def Let_def exit_with_def)
qed

lemma User_ack_in_run:
  assumes "User_ack d \<in> set (events (main_open e c))"
  shows "\<not> yes c \<and> \<not> (0x50 \<le> address c \<and> address c \<le> 0x57 \<and> pec c)
         \<and> d = (\<not> (size_v c = I2C_SMBUS_BYTE \<and> 0 \<le> daddress c \<and> pec c))"
proof -
  from events_main_open [OF assms] have "User_ack d \<in> set (pre_events e c)"
    by (auto simp: writeaddr_def Let_def split: if_splits)
  then show ?thesis by (rule User_ack_pre_events)
qed

lemma Continue_prompt_in_run:
  assumes "Stderr (Continue_prompt s) \<in> set (events (main_open e c))"
  shows "\<not> yes c \<and> \<not> (0x50 \<le> address c \<and> address c \<le> 0x57 \<and> pec c)
         \<and> s = (if size_v c = I2C_SMBUS_BYTE \<and> 0 \<le> daddress c \<and> pec c then ''y/N'' else ''Y/n'')"
proof -
  from events_main_open [OF assms] have "Stderr (Continue_prompt s) \<in> set (pre_events e c)"
    by (auto simp: writeaddr_def Let_def split: if_splits)
  then show ?thesis by (rule Continue_prompt_pre_events)
qed

lemma Eeprom_stop_in_run:
  assumes "Stderr Eeprom_stop \<in> set (events (main_open e c))"
  shows "\<not> yes c"
proof -
  from events_main_open [OF assms] have "Stderr Eeprom_stop \<in> set (pre_events e c)"
    by (auto simp: writeaddr_def Let_def split: if_splits)
  then show ?thesis by (rule Eeprom_stop_pre_events)
qed

lemma check_funcs_fails:
  assumes "ioctl_FUNCS e = Some f" and "funcs_switch f sz da = Some name"
  shows "check_funcs e sz da p = (- 1, [Ioctl_FUNCS, Stderr (Missing_func name)])"
  using assms by (simp add: check_funcs_def)

lemma main_open_check_fails:
  assumes "0 \<le> open_i2c_dev e (i2cbus c)" and "ioctl_FUNCS e = Some f"
    and "funcs_switch f (size_v c) (daddress c) = Some name"
  shows "main_open e c =
           exit_with 1 [Open_i2c_dev (open_i2c_dev e (i2cbus c)), Ioctl_FUNCS,
                        Stderr (Missing_func name)]"
  using assms by (simp add: main_open_def check_funcs_fails Let_def)

lemma main_transaction_raw_size:
  "length_v c \<noteq> 0 \<Longrightarrow> main_transaction e (c\<lparr>size_v := s\<rparr>) evs = main_transaction e c evs"
  by (simp add: main_transaction_def main_print_def Let_def)

lemma invalid_mode:
  assumes "parse_flags e argv opts0 = Inr v" and "\<not> version v"
    and "flags v + 4 < length argv"
    and "0 \<le> lookup_i2c_bus e (argv ! (flags v + 1))"
    and "0 \<le> parse_i2c_address e (argv ! (flags v + 2))"
    and "parse_daddress e argv v = Inr x"
    and "c_at (argv ! (flags v + 4)) 0 \<noteq> CHR ''b''"
    and "c_at (argv ! (flags v + 4)) 0 \<noteq> CHR ''w''"
    and "c_at (argv ! (flags v + 4)) 0 \<noteq> CHR ''c''"
  shows "main e argv = help_c [Stderr Invalid_mode]"
  using assms
  by (cases x) (simp add: main_def parse_args_def parse_mode_def Let_def)

lemma Close_in_main_print:
  "Close \<in> set (events (main_print e c evs r b)) \<longleftrightarrow> Close \<in> set evs"
  by (simp add: main_print_def exit_with_def)

lemma Close_in_main_transaction:
  "Close \<in> set (events (main_transaction e c evs))"
  by (simp add: main_transaction_def exit_with_def Close_in_main_print Let_def
      split: smbus_size.splits)

lemma Close_in_main_pec:
  "Close \<in> set (events (main_pec e c evs))"
  by (simp add: main_pec_def exit_with_def Close_in_main_transaction)

lemma Close_check_funcs: "Close \<notin> set (snd (check_funcs e sz da p))"
  by (simp add: check_funcs_def split: option.splits)

lemma Close_confirm: "Close \<notin> set (snd (confirm e ad sz da p))"
  by (simp add: confirm_def Let_def)

lemma close_iff_confirmed:
  "Close \<in> set (events (main_open e c)) \<longleftrightarrow>
     reaches_confirm e c \<and> (yes c \<or> fst (confirm e (address c) (size_v c) (daddress c) (pec c)))"
  by (cases "yes c")
    (auto simp: main_open_def main_confirm_def reaches_confirm_def exit_with_def Let_def
      Close_in_main_pec Close_check_funcs Close_confirm)

subsection \<open>Bytes\<close>

lemma int_and_255: "(x :: int) AND 0xff = x mod 256"
proof -
  have "(255 :: int) = mask 8" by (simp add: mask_eq_exp_minus_1)
  then have "x AND 255 = take_bit 8 x" by (simp add: take_bit_eq_mask)
  then show ?thesis by (simp add: take_bit_eq_mod)
qed

lemma unat_byte_of_int: "unat (word_of_int (x AND 0xff) :: byte) = nat (x mod 256)"
proof -
  have "uint (word_of_int (x mod 256) :: byte) = x mod 256"
    by (simp add: uint_word_of_int)
  then show ?thesis
    by (simp add: int_and_255 unat_eq_nat_uint)
qed

lemma sint_byte_low:
  assumes "(b :: byte) < 0x80"
  shows "sint b = uint b"
proof -
  from assms have u: "uint b < 128"
    by (simp add: word_less_def)
  have "signed_take_bit 7 (uint b) = uint b"
  proof (rule signed_take_bit_int_eq_self)
    have "0 \<le> uint b" by simp
    then show "- (2 ^ 7) \<le> uint b" by (rule order_trans [rotated]) simp
    show "uint b < 2 ^ 7" using u by simp
  qed
  then show ?thesis
    by (simp add: sint_uint)
qed

lemma sint_byte_high:
  assumes "0x80 \<le> (b :: byte)"
  shows "sint b = uint b - 256"
proof -
  from assms have u: "128 \<le> uint b"
    by (simp add: word_le_def)
  have v: "uint b < 256"
    using uint_bounded [of b] by simp
  have "signed_take_bit 7 (uint b) = take_bit 8 (uint b + 128) - 128"
    by (simp add: signed_take_bit_eq_take_bit_shift)
  also have "take_bit 8 (uint b + 128) = uint b - 128"
  proof -
    have e1: "uint b + 128 = uint b - 128 + 256"
      by simp
    have "(uint b + 128) mod 256 = (uint b - 128) mod 256"
      unfolding e1 by (simp only: mod_add_self2)
    also have "\<dots> = uint b - 128"
      using u v by (simp add: mod_pos_pos_trivial)
    finally show ?thesis
      by (simp add: take_bit_eq_mod)
  qed
  finally show ?thesis
    by (simp add: sint_uint)
qed

lemma char_arg_signed:
  "char_arg True b = (if b < 0x80 then unat b else 2 ^ 32 - 256 + unat b)"
proof (cases "b < 0x80")
  case True
  then have u: "uint b < 128"
    by (simp add: word_less_def)
  have "uint b mod 2 ^ 32 = uint b"
    using u by (simp add: mod_pos_pos_trivial)
  with True show ?thesis
    by (simp add: char_arg_def int_bits_def sint_byte_low)
next
  case False
  then have h: "0x80 \<le> b" by simp
  then have u: "128 \<le> uint b"
    by (simp add: word_le_def)
  have v: "uint b < 256"
    using uint_bounded [of b] by simp
  have "(uint b - 256) mod 2 ^ 32 = (uint b - 256 + 2 ^ 32) mod 2 ^ 32"
    by (simp only: mod_add_self2)
  also have "\<dots> = uint b - 256 + 2 ^ 32"
    using u v by (simp add: mod_pos_pos_trivial)
  finally have "nat ((uint b - 256) mod 2 ^ 32) = nat (uint b - 256 + 2 ^ 32)"
    by simp
  also have "\<dots> = 2 ^ 32 - 256 + nat (uint b)"
    using u by (simp add: nat_add_distrib nat_diff_distrib)
  finally show ?thesis
    using False by (simp add: char_arg_def int_bits_def sint_byte_high [OF h])
qed

lemma char_arg_unsigned: "char_arg False b = unat b"
  by (simp add: char_arg_def)

lemma hex_digit_0: "hex_digit u 0 = CHR ''0''"
  by (simp add: hex_digit_def)

lemma printf_02X_byte:
  assumes "n < 256"
  shows "printf_0x u 2 n = [hex_digit u (n div 16), hex_digit u (n mod 16)]"
proof (cases "n < 16")
  case True
  then show ?thesis
    by (simp add: printf_0x_def hex_of.simps [of u n] hex_digit_0)
next
  case False
  with assms have "n div 16 < 16" by simp
  with False show ?thesis
    by (simp add: printf_0x_def hex_of.simps [of u n] hex_of.simps [of u "n div 16"])
qed

lemma unat_byte_less: "unat (b :: byte) < 256"
  using unsigned_less [of b, where 'a = nat] by simp

lemma printf_char_two_digits:
  assumes "\<not> sc \<or> b < 0x80"
  shows "printf_0x True 2 (char_arg sc b) =
           [hex_digit True (unat b div 16), hex_digit True (unat b mod 16)]"
proof -
  from assms have "char_arg sc b = unat b"
    by (cases sc) (auto simp: char_arg_signed char_arg_unsigned)
  then show ?thesis
    by (simp add: printf_02X_byte unat_byte_less)
qed

lemma hex_of_length:
  "16 ^ k \<le> n \<Longrightarrow> k < length (hex_of u n)"
proof (induction k arbitrary: n)
  case 0
  then show ?case by (simp add: hex_of.simps [of u n])
next
  case (Suc k)
  from Suc.prems have a: "16 ^ k * 16 \<le> n"
    by (simp add: mult.commute)
  then have c: "16 ^ k \<le> n div 16"
    by (simp add: less_eq_div_iff_mult_less_eq)
  have d: "(16 :: nat) \<le> 16 ^ k * 16"
    using mult_le_mono1 [of 1 "16 ^ k" 16] by simp
  from d a have "16 \<le> n"
    by (rule order_trans)
  then have b: "\<not> n < 16"
    by simp
  from Suc.IH [OF c] b show ?case
    by (simp add: hex_of.simps [of u n])
qed

lemma printf_signed_char_eight_digits:
  assumes "0x80 \<le> b"
  shows "8 \<le> length (printf_0x True 2 (char_arg True b))"
proof -
  from assms have "char_arg True b = 2 ^ 32 - 256 + unat b"
    by (simp add: char_arg_signed)
  then have "16 ^ 7 \<le> char_arg True b"
    by simp
  from hex_of_length [OF this, of True] show ?thesis
    by (simp add: printf_0x_def)
qed

lemma print_raw_two_digits:
  assumes "length buf = nat len" and "\<not> sc \<or> (\<forall>b \<in> set buf. b < 0x80)"
  shows "print_raw sc len buf =
     (if len = 1 \<or> len = 2 \<or> len = 4 \<or> len = 8
      then ''0x'' @ concat (map (\<lambda>b. [hex_digit True (unat b div 16),
                                         hex_digit True (unat b mod 16)]) buf) @ [CHR 0x0A]
      else concat (map (\<lambda>i. (if 0 < i then '' '' else []) @ ''0x''
                            @ [hex_digit True (unat (buf ! i) div 16),
                               hex_digit True (unat (buf ! i) mod 16)]) [0..<nat len])
           @ [CHR 0x0A])"
proof -
  have d: "printf_0x True 2 (char_arg sc (buf ! i)) =
           [hex_digit True (unat (buf ! i) div 16), hex_digit True (unat (buf ! i) mod 16)]"
    if "i < nat len" for i
    using assms that by (intro printf_char_two_digits) auto
  have p: "map (\<lambda>i. printf_0x True 2 (char_arg sc (buf ! i))) [0..<nat len] =
           map (\<lambda>b. [hex_digit True (unat b div 16), hex_digit True (unat b mod 16)]) buf"
    using assms(1) d by (auto simp: list_eq_iff_nth_eq)
  have q: "map (\<lambda>i. (if 0 < i then '' '' else []) @ ''0x''
                  @ printf_0x True 2 (char_arg sc (buf ! i))) [0..<nat len] =
           map (\<lambda>i. (if 0 < i then '' '' else []) @ ''0x''
                  @ [hex_digit True (unat (buf ! i) div 16),
                     hex_digit True (unat (buf ! i) mod 16)]) [0..<nat len]"
    using d by simp
  show ?thesis
    unfolding print_raw_def p q by simp
qed

lemma decode_be_simps:
  "decode_be [] = 0" "decode_be [b] = unat b" "decode_be [b, b'] = unat b * 256 + unat b'"
  by (simp_all add: decode_be_def)

lemma writeaddr_bytes:
  assumes "0 \<le> a"
  shows "writeaddr e a n =
     (let bs = (if n = 0 then []
                else if n = 1 then [word_of_int (a AND 0xff)]
                else [word_of_int (drop_bit 8 a AND 0xff), word_of_int (a AND 0xff)])
      in Write bs # (if write_ret e bs \<noteq> int (min n 2) then [Stderr Write_failed_warning] else []))"
proof -
  consider "n = 0" | "n = 1" | "2 \<le> n" by linarith
  then show ?thesis
  proof cases
    case 1
    with assms show ?thesis by (simp add: writeaddr_def MAX_ADDR_LEN_def)
  next
    case 2
    with assms show ?thesis by (simp add: writeaddr_def MAX_ADDR_LEN_def)
  next
    case 3
    then have "(if MAX_ADDR_LEN < n then MAX_ADDR_LEN else n) = 2"
      by (simp add: MAX_ADDR_LEN_def)
    with assms 3 show ?thesis
      by (simp add: writeaddr_def Let_def upt_rec min_def)
  qed
qed

lemma two_bytes_mod:
  assumes "0 \<le> (a :: int)"
  shows "nat ((a div 256) mod 256) * 256 + nat (a mod 256) = nat a mod 65536"
proof -
  have "a mod 65536 = (a div 256) mod 256 * 256 + a mod 256"
    using mod_mult2_eq' [of a 256 256] by simp
  then have "nat (a mod 65536) = nat ((a div 256) mod 256 * 256 + a mod 256)"
    by simp
  also have "\<dots> = nat ((a div 256) mod 256) * 256 + nat (a mod 256)"
    by (simp add: nat_add_distrib nat_mult_distrib)
  finally show ?thesis
    using assms by (simp add: nat_mod_distrib)
qed

lemma decode_two_bytes:
  assumes "0 \<le> a"
  shows "decode_be [word_of_int (drop_bit 8 a AND 0xff), word_of_int (a AND 0xff)] =
           nat a mod 65536"
  by (simp add: decode_be_simps unat_byte_of_int drop_bit_eq_div two_bytes_mod [OF assms])

lemma decode_one_byte:
  assumes "0 \<le> a"
  shows "decode_be [word_of_int (a AND 0xff)] = nat a mod 256"
  using assms by (simp add: decode_be_simps unat_byte_of_int nat_mod_distrib)

lemma parse_flags_length:
  assumes "parse_flags e argv v = Inr v'"
    and "(length_v v = 0) = (\<forall>i. 1 \<le> i \<and> i \<le> flags v \<longrightarrow> c_at (argv ! i) 1 \<noteq> CHR ''l'')"
  shows "(length_v v' = 0) = (\<forall>i. 1 \<le> i \<and> i \<le> flags v' \<longrightarrow> c_at (argv ! i) 1 \<noteq> CHR ''l'')"
  using assms
proof (induction e argv v rule: parse_flags.induct)
  case (1 e argv v)
  let ?a = "argv ! (1 + flags v)"
  let ?P = "\<lambda>i. c_at (argv ! i) 1 \<noteq> CHR ''l''"
  show ?case
  proof (cases "1 + flags v < length argv \<and> c_at ?a 0 = CHR ''-''")
    case False
    then have "parse_flags e argv v = Inr v"
      by (subst parse_flags.simps) auto
    with "1.prems" show ?thesis
      by simp
  next
    case True
    consider (V) "c_at ?a 1 = CHR ''V''" | (f) "c_at ?a 1 = CHR ''f''" | (y) "c_at ?a 1 = CHR ''y''"
      | (l) "c_at ?a 1 = CHR ''l''"
      | (other) "c_at ?a 1 \<noteq> CHR ''V''" "c_at ?a 1 \<noteq> CHR ''f''" "c_at ?a 1 \<noteq> CHR ''y''"
          "c_at ?a 1 \<noteq> CHR ''l''"
      by blast
    then show ?thesis
    proof cases
      case V
      with True "1.prems"(1)
      have r: "parse_flags e argv (v\<lparr>version := True, flags := flags v + 1\<rparr>) = Inr v'"
        by (simp add: parse_flags.simps [of e argv v])
      show ?thesis
        by (rule "1.IH"(1) [OF True refl refl V r]) (use V "1.prems"(2) in \<open>auto simp: le_Suc_eq\<close>)
    next
      case f
      with True "1.prems"(1)
      have r: "parse_flags e argv (v\<lparr>force := True, flags := flags v + 1\<rparr>) = Inr v'"
        by (simp add: parse_flags.simps [of e argv v])
      from f have nV: "c_at ?a 1 \<noteq> CHR ''V''" by simp
      show ?thesis
        by (rule "1.IH"(2) [OF True refl refl nV f r]) (use f "1.prems"(2) in \<open>auto simp: le_Suc_eq\<close>)
    next
      case y
      with True "1.prems"(1)
      have r: "parse_flags e argv (v\<lparr>yes := True, flags := flags v + 1\<rparr>) = Inr v'"
        by (simp add: parse_flags.simps [of e argv v])
      from y have nV: "c_at ?a 1 \<noteq> CHR ''V''" and nf: "c_at ?a 1 \<noteq> CHR ''f''" by simp_all
      show ?thesis
        by (rule "1.IH"(3) [OF True refl refl nV nf y r]) (use y "1.prems"(2) in \<open>auto simp: le_Suc_eq\<close>)
    next
      case l
      define r1 where "r1 = strtol e (drop 2 ?a)"
      define next_arg where
        "next_arg = (snd r1 = [] \<and> to_int (fst r1) = 0 \<and> 2 + flags v < length argv)"
      define r where "r = (if next_arg then strtol e (argv ! (2 + flags v)) else r1)"
      define fl where "fl = (if next_arg then flags v + 1 else flags v)"
      from l have nV: "c_at ?a 1 \<noteq> CHR ''V''" and nf: "c_at ?a 1 \<noteq> CHR ''f''"
        and ny: "c_at ?a 1 \<noteq> CHR ''y''" by simp_all
      from True l "1.prems"(1)
      have ok: "\<not> (snd r \<noteq> [] \<or> to_int (fst r) = 0)"
        and rec: "parse_flags e argv (v\<lparr>length_v := to_int (fst r), flags := fl + 1\<rparr>) = Inr v'"
        by (auto simp: parse_flags.simps [of e argv v] Let_def r1_def next_arg_def r_def fl_def
            split: if_splits)
      have pos: "1 \<le> 1 + flags v \<and> 1 + flags v \<le> fl + 1"
        by (simp add: fl_def)
      have inv: "(length_v (v\<lparr>length_v := to_int (fst r), flags := fl + 1\<rparr>) = 0) =
           (\<forall>i. 1 \<le> i \<and> i \<le> flags (v\<lparr>length_v := to_int (fst r), flags := fl + 1\<rparr>) \<longrightarrow>
              c_at (argv ! i) 1 \<noteq> CHR ''l'')"
        using ok l pos by auto
      show ?thesis
        by (rule "1.IH"(4) [OF True refl refl nV nf ny l r1_def next_arg_def r_def fl_def ok rec inv])
    next
      case other
      with True "1.prems"(1) show ?thesis
        by (simp add: parse_flags.simps [of e argv v] Let_def)
    qed
  qed
qed

lemma parse_args_length:
  assumes "parse_args e argv = Inr c"
  shows "(length_v c = 0) =
           (\<forall>i. 1 \<le> i \<and> i \<le> flags c \<longrightarrow> c_at (argv ! i) 1 \<noteq> CHR ''l'')"
proof -
  from parse_args_InrD [OF assms] obtain v where
    v: "parse_flags e argv opts0 = Inr v" "flags c = flags v" "length_v c = length_v v"
    by blast
  have "(length_v opts0 = 0) =
          (\<forall>i. 1 \<le> i \<and> i \<le> flags opts0 \<longrightarrow> c_at (argv ! i) 1 \<noteq> CHR ''l'')"
    by (simp add: opts0_def)
  from parse_flags_length [OF v(1) this] v(2,3) show ?thesis
    by simp
qed

lemma parse_mode_accepts:
  assumes "flags v + 4 < length argv"
    and "c_at (argv ! (flags v + 4)) 0 = CHR ''b'' \<or> c_at (argv ! (flags v + 4)) 0 = CHR ''w''
         \<or> c_at (argv ! (flags v + 4)) 0 = CHR ''c''"
  shows "\<exists>sz'. parse_mode argv v sz = Inr (sz', c_at (argv ! (flags v + 4)) 1 = CHR ''p'')"
  using assms by (auto simp: parse_mode_def Let_def)

lemma parse_mode_absent:
  "\<not> flags v + 4 < length argv \<Longrightarrow> parse_mode argv v sz = Inr (sz, False)"
  by (simp add: parse_mode_def)

lemma parse_args_accepts:
  assumes "parse_flags e argv opts0 = Inr v" and "\<not> version v"
    and "flags v + 3 \<le> length argv"
    and "0 \<le> lookup_i2c_bus e (argv ! (flags v + 1))"
    and "0 \<le> parse_i2c_address e (argv ! (flags v + 2))"
    and "parse_daddress e argv v = Inr x"
    and "flags v + 4 < length argv \<longrightarrow>
           c_at (argv ! (flags v + 4)) 0 = CHR ''b'' \<or> c_at (argv ! (flags v + 4)) 0 = CHR ''w''
           \<or> c_at (argv ! (flags v + 4)) 0 = CHR ''c''"
  shows "\<exists>c. parse_args e argv = Inr c \<and> flags c = flags v
           \<and> pec c = (flags v + 4 < length argv \<and> c_at (argv ! (flags v + 4)) 1 = CHR ''p'')"
proof -
  obtain sz0 da dl where x: "x = (sz0, da, dl)"
    by (cases x)
  have "\<exists>sz'. parse_mode argv v sz0 =
          Inr (sz', flags v + 4 < length argv \<and> c_at (argv ! (flags v + 4)) 1 = CHR ''p'')"
  proof (cases "flags v + 4 < length argv")
    case True
    with assms(7) parse_mode_accepts [of v argv sz0] show ?thesis by simp
  next
    case False
    with parse_mode_absent [of v argv sz0] show ?thesis by simp
  qed
  then obtain sz' where
    m: "parse_mode argv v sz0 =
          Inr (sz', flags v + 4 < length argv \<and> c_at (argv ! (flags v + 4)) 1 = CHR ''p'')"
    by blast
  from assms(1-6) x m show ?thesis
    by (simp add: parse_args_def)
qed

text \<open>The definitions that a run on a given command line unfolds.\<close>

lemmas run_defs = main_def parse_args_def parse_daddress_def parse_mode_def main_open_def
  main_confirm_def main_pec_def main_transaction_def main_print_def check_funcs_def
  funcs_switch_def confirm_def writeaddr_def exit_with_def help_c_def opts0_def
  c_at_def to_int_def to_u8_def int_bits_def MAX_ADDR_LEN_def print_raw_def printf_0x_def
  char_arg_signed char_arg_unsigned hex_digit_def hex_of.simps daddrlen_loop.simps parse_flags.simps
  I2C_FUNC_I2C_def I2C_FUNC_SMBUS_PEC_def I2C_FUNC_SMBUS_READ_BYTE_def
  I2C_FUNC_SMBUS_WRITE_BYTE_def I2C_FUNC_SMBUS_READ_BYTE_DATA_def
  I2C_FUNC_SMBUS_READ_WORD_DATA_def passes_checks_def reaches_confirm_def
  env_ok_def strtol_sample_def upt_rec

section \<open>The claims\<close>

subsection \<open>C1: which transaction is executed\<close>

text \<open>
  Claim C1 gives the raw read to the lengths above 0 and the table of the modes to every
  other command line. The program tests \<open>length\<close> against 0 only (lines 200, 274 and
  300): \<open>-l -1\<close> is accepted and takes the raw branch, where \<open>calloc\<close> fails. With no
  data address the claim asks for the read of the current byte there; the run ends
  with \<open>exit(1)\<close> and no read.
\<close>

theorem negative_length_counterexample:
  "main env_ok [''i2cget'', ''-y'', ''-l'', ''-1'', ''1'', ''0x48''] =
     \<lparr>status = Exit 1, stdout = [],
      events = [Open_i2c_dev 3, Ioctl_FUNCS, Set_slave_addr 0x48 False,
                Stderr Could_not_allocate, Close]\<rparr>"
  by (simp add: run_defs)

text \<open>
  Claim C1, amended. For every accepted command line, \<open>length\<close> is not 0 exactly when
  one of the options is \<open>-l\<close> (an \<open>-l\<close> whose value is 0 is never accepted). The run issues
  at most one read, and issues it exactly when the checks before the transaction pass
  (and, for a raw read, the length is positive and the buffer is allocated). The read is
  \<^item> the raw read of \<open>length\<close> bytes when a length was given (\<open>length\<close> is not 0), whatever
    the mode argument is: the transaction does not depend on \<open>size\<close>;
  \<^item> otherwise \<open>i2c_smbus_read_byte\<close> when there is no data address argument;
  \<^item> otherwise \<open>i2c_smbus_read_byte_data\<close> when there is no mode argument;
  \<^item> otherwise what the first character of the mode argument selects: \<open>b\<close> byte data,
    \<open>w\<close> word data, \<open>c\<close> \<open>i2c_smbus_read_byte\<close>.
  The byte data and word data reads are made at the register \<open>to_u8 daddress\<close>, the low
  8 bits of the data address. A mode argument that starts with any other character ends
  the run in \<open>help()\<close>, with "Invalid mode" and \<open>exit(1)\<close>, once the arguments before it
  have been accepted.
\<close>

theorem transaction_selector:
  "(parse_args e argv = Inr c \<longrightarrow>
      (length_v c = 0) =
        (\<forall>i. 1 \<le> i \<and> i \<le> flags c \<longrightarrow> c_at (argv ! i) 1 \<noteq> CHR ''l'')
      \<and> bus_reads (events (main e argv)) =
        (if passes_checks e c \<and> (length_v c = 0 \<or> 0 < length_v c \<and> calloc_ok e)
         then [if length_v c \<noteq> 0 then Read (length_v c)
               else if length argv \<le> flags c + 3 then Smbus_read_byte
               else if length argv = flags c + 4 then Smbus_read_byte_data (to_u8 (daddress c))
               else if c_at (argv ! (flags c + 4)) 0 = CHR ''b''
                 then Smbus_read_byte_data (to_u8 (daddress c))
               else if c_at (argv ! (flags c + 4)) 0 = CHR ''w''
                 then Smbus_read_word_data (to_u8 (daddress c))
               else Smbus_read_byte]
         else [])
      \<and> (flags c + 4 < length argv \<longrightarrow>
           c_at (argv ! (flags c + 4)) 0 = CHR ''b'' \<or> c_at (argv ! (flags c + 4)) 0 = CHR ''w''
           \<or> c_at (argv ! (flags c + 4)) 0 = CHR ''c'')
      \<and> (length_v c \<noteq> 0 \<longrightarrow>
           main_transaction e (c\<lparr>size_v := s\<rparr>) evs = main_transaction e c evs))
   \<and> (parse_flags e argv opts0 = Inr v \<and> \<not> version v \<and> flags v + 4 < length argv
        \<and> 0 \<le> lookup_i2c_bus e (argv ! (flags v + 1))
        \<and> 0 \<le> parse_i2c_address e (argv ! (flags v + 2))
        \<and> parse_daddress e argv v = Inr x
        \<and> c_at (argv ! (flags v + 4)) 0 \<noteq> CHR ''b''
        \<and> c_at (argv ! (flags v + 4)) 0 \<noteq> CHR ''w''
        \<and> c_at (argv ! (flags v + 4)) 0 \<noteq> CHR ''c'' \<longrightarrow>
      main e argv = help_c [Stderr Invalid_mode])"
proof (intro conjI impI)
  assume p: "parse_args e argv = Inr c"
  have m: "main e argv = main_open e c"
    by (rule main_Inr [OF p])
  show "(length_v c = 0) =
        (\<forall>i. 1 \<le> i \<and> i \<le> flags c \<longrightarrow> c_at (argv ! i) 1 \<noteq> CHR ''l'')"
    by (rule parse_args_length [OF p])
  show "bus_reads (events (main e argv)) =
        (if passes_checks e c \<and> (length_v c = 0 \<or> 0 < length_v c \<and> calloc_ok e)
         then [if length_v c \<noteq> 0 then Read (length_v c)
               else if length argv \<le> flags c + 3 then Smbus_read_byte
               else if length argv = flags c + 4 then Smbus_read_byte_data (to_u8 (daddress c))
               else if c_at (argv ! (flags c + 4)) 0 = CHR ''b''
                 then Smbus_read_byte_data (to_u8 (daddress c))
               else if c_at (argv ! (flags c + 4)) 0 = CHR ''w''
                 then Smbus_read_word_data (to_u8 (daddress c))
               else Smbus_read_byte]
         else [])"
    unfolding m bus_reads_main_open parse_args_argv(6) [OF p]
    by simp
  show "c_at (argv ! (flags c + 4)) 0 = CHR ''b'' \<or> c_at (argv ! (flags c + 4)) 0 = CHR ''w''
           \<or> c_at (argv ! (flags c + 4)) 0 = CHR ''c''" if "flags c + 4 < length argv"
    using that by (rule parse_args_argv(7) [OF p])
next
  assume "length_v c \<noteq> 0"
  then show "main_transaction e (c\<lparr>size_v := s\<rparr>) evs = main_transaction e c evs"
    by (rule main_transaction_raw_size)
next
  assume "parse_flags e argv opts0 = Inr v \<and> \<not> version v \<and> flags v + 4 < length argv
        \<and> 0 \<le> lookup_i2c_bus e (argv ! (flags v + 1))
        \<and> 0 \<le> parse_i2c_address e (argv ! (flags v + 2))
        \<and> parse_daddress e argv v = Inr x
        \<and> c_at (argv ! (flags v + 4)) 0 \<noteq> CHR ''b''
        \<and> c_at (argv ! (flags v + 4)) 0 \<noteq> CHR ''w''
        \<and> c_at (argv ! (flags v + 4)) 0 \<noteq> CHR ''c''"
  then show "main e argv = help_c [Stderr Invalid_mode]"
    by (elim conjE) (rule invalid_mode, assumption+)
qed

text \<open>
  A raw read of three bytes with the mode \<open>w\<close>; no data address; a data address and no
  mode; the mode \<open>w\<close> at the data address 0x1234, which reads the register 0x34; the
  mode \<open>x\<close>; the option \<open>-l 0\<close>.
\<close>

theorem transaction_selector_witness:
  "bus_reads (events (main env_ok
      [''i2cget'', ''-y'', ''-l'', ''3'', ''1'', ''0x48'', ''0x10'', ''w''])) = [Read 3]
   \<and> bus_reads (events (main env_ok [''i2cget'', ''-y'', ''1'', ''0x48''])) = [Smbus_read_byte]
   \<and> bus_reads (events (main env_ok [''i2cget'', ''-y'', ''1'', ''0x48'', ''0x10''])) =
       [Smbus_read_byte_data 16]
   \<and> bus_reads (events (main env_ok [''i2cget'', ''-y'', ''1'', ''0x48'', ''0x1234'', ''w''])) =
       [Smbus_read_word_data 0x34]
   \<and> main env_ok [''i2cget'', ''-y'', ''1'', ''0x48'', ''0x10'', ''x''] =
       \<lparr>status = Exit 1, stdout = [], events = [Stderr Invalid_mode, Stderr Usage]\<rparr>
   \<and> main env_ok [''i2cget'', ''-y'', ''-l'', ''0'', ''1'', ''0x48''] =
       \<lparr>status = Exit 1, stdout = [], events = [Stderr Length_not_specified]\<rparr>
   \<and> length_v \<lparr>flags = 3, force = False, yes = True, version = False, length_v = 3,
          i2cbus = 1, address = 0x48, size_v = I2C_SMBUS_WORD_DATA, daddress = 16,
          daddrlen = 1, pec = False\<rparr> \<noteq> 0
   \<and> c_at ([''i2cget'', ''-y'', ''-l'', ''3'', ''1'', ''0x48'', ''0x10'', ''w''] ! 2) 1 = CHR ''l''"
proof -
  let ?A1 = "[''i2cget'', ''-y'', ''-l'', ''3'', ''1'', ''0x48'', ''0x10'', ''w'']"
  let ?C1 = "\<lparr>flags = 3, force = False, yes = True, version = False, length_v = 3,
          i2cbus = 1, address = 0x48, size_v = I2C_SMBUS_WORD_DATA, daddress = 16,
          daddrlen = 1, pec = False\<rparr>"
  let ?A2 = "[''i2cget'', ''-y'', ''1'', ''0x48'']"
  let ?C2 = "\<lparr>flags = 1, force = False, yes = True, version = False, length_v = 0,
          i2cbus = 1, address = 0x48, size_v = I2C_SMBUS_BYTE, daddress = - 1,
          daddrlen = 0, pec = False\<rparr>"
  let ?A3 = "[''i2cget'', ''-y'', ''1'', ''0x48'', ''0x10'']"
  let ?C3 = "\<lparr>flags = 1, force = False, yes = True, version = False, length_v = 0,
          i2cbus = 1, address = 0x48, size_v = I2C_SMBUS_BYTE_DATA, daddress = 16,
          daddrlen = 1, pec = False\<rparr>"
  let ?A4 = "[''i2cget'', ''-y'', ''1'', ''0x48'', ''0x1234'', ''w'']"
  let ?C4 = "\<lparr>flags = 1, force = False, yes = True, version = False, length_v = 0,
          i2cbus = 1, address = 0x48, size_v = I2C_SMBUS_WORD_DATA, daddress = 0x1234,
          daddrlen = 2, pec = False\<rparr>"
  let ?A5 = "[''i2cget'', ''-y'', ''1'', ''0x48'', ''0x10'', ''x'']"
  let ?V5 = "\<lparr>flags = 1, force = False, yes = True, version = False, length_v = 0\<rparr>"
  have p1: "parse_args env_ok ?A1 = Inr ?C1" and q1: "passes_checks env_ok ?C1"
    by (simp_all add: run_defs)
  have p2: "parse_args env_ok ?A2 = Inr ?C2" and q2: "passes_checks env_ok ?C2"
    by (simp_all add: run_defs)
  have p3: "parse_args env_ok ?A3 = Inr ?C3" and q3: "passes_checks env_ok ?C3"
    by (simp_all add: run_defs)
  have p4: "parse_args env_ok ?A4 = Inr ?C4" and q4: "passes_checks env_ok ?C4"
    by (simp_all add: run_defs)
  have ok: "calloc_ok env_ok"
    by (simp add: env_ok_def)
  have f5: "parse_flags env_ok ?A5 opts0 = Inr ?V5"
    and d5: "parse_daddress env_ok ?A5 ?V5 = Inr (I2C_SMBUS_BYTE_DATA, 16, 1)"
    and b5: "0 \<le> lookup_i2c_bus env_ok (?A5 ! (flags ?V5 + 1))"
      "0 \<le> parse_i2c_address env_ok (?A5 ! (flags ?V5 + 2))"
    by (simp_all add: run_defs)
  from transaction_selector [where e = env_ok and argv = ?A1 and c = ?C1] p1 q1 ok
  have 1: "bus_reads (events (main env_ok ?A1)) = [Read 3]"
    by simp
  from transaction_selector [where e = env_ok and argv = ?A2 and c = ?C2] p2 q2
  have 2: "bus_reads (events (main env_ok ?A2)) = [Smbus_read_byte]"
    by simp
  from transaction_selector [where e = env_ok and argv = ?A3 and c = ?C3] p3 q3
  have 3: "bus_reads (events (main env_ok ?A3)) = [Smbus_read_byte_data 16]"
    by (simp add: to_u8_def)
  from transaction_selector [where e = env_ok and argv = ?A4 and c = ?C4] p4 q4
  have 4: "bus_reads (events (main env_ok ?A4)) = [Smbus_read_word_data 0x34]"
    by (simp add: c_at_def to_u8_def)
  from transaction_selector [where e = env_ok and argv = ?A5 and v = ?V5
      and x = "(I2C_SMBUS_BYTE_DATA, 16, 1)"] f5 d5 b5
  have 5: "main env_ok ?A5 =
       \<lparr>status = Exit 1, stdout = [], events = [Stderr Invalid_mode, Stderr Usage]\<rparr>"
    by (simp add: c_at_def help_c_def exit_with_def)
  have 6: "main env_ok [''i2cget'', ''-y'', ''-l'', ''0'', ''1'', ''0x48''] =
       \<lparr>status = Exit 1, stdout = [], events = [Stderr Length_not_specified]\<rparr>"
    by (simp add: run_defs)
  from transaction_selector [where e = env_ok and argv = ?A1 and c = ?C1] p1
  have 7: "length_v ?C1 \<noteq> 0"
    by simp
  have 8: "c_at (?A1 ! 2) 1 = CHR ''l''"
    by (simp add: c_at_def)
  from 1 2 3 4 5 6 7 8 show ?thesis by blast
qed

subsection \<open>C2: PEC on an EEPROM address\<close>

text \<open>
  Claim C2 says that a run with a chip address in 0x50 to 0x57 and PEC aborts before
  any read whether or not \<open>-y\<close> is given. It does not with \<open>-y\<close>: line 264 is
  \<open>if (!yes && !confirm(...))\<close>, so \<open>confirm\<close>, which holds the refusal, is not called.
  On the chip address 0x50 with the mode \<open>bp\<close> and \<open>-y\<close> the run enables PEC, reads
  the register and prints it.
\<close>

theorem eeprom_pec_with_yes_counterexample:
  "main env_ok [''i2cget'', ''-y'', ''1'', ''0x50'', ''0x10'', ''bp''] =
     \<lparr>status = Exit 0, stdout = ''0x2a'' @ [CHR 0x0A],
      events = [Open_i2c_dev 3, Ioctl_FUNCS, Set_slave_addr 0x50 False, Ioctl_PEC,
                Smbus_read_byte_data 16, Close]\<rparr>"
  by (simp add: run_defs)

text \<open>
  Claim C2, amended. For a chip address in 0x50 to 0x57 with PEC: a run without \<open>-y\<close>
  issues no read, prints nothing and never asks for a confirmation, and when it gets as
  far as \<open>confirm\<close> (the device was opened, the capability check passed and the address
  was bound) it prints the refusal and ends with \<open>exit(0)\<close>. A run with \<open>-y\<close> never
  prints the refusal, and it issues its read when the steps before the transaction
  succeed.
\<close>

theorem eeprom_pec_refused_unless_yes:
  assumes "parse_args e argv = Inr c"
    and "0x50 \<le> address c" and "address c \<le> 0x57" and "pec c"
  shows "(\<not> yes c \<longrightarrow>
            bus_reads (events (main e argv)) = [] \<and> stdout (main e argv) = []
            \<and> (\<forall>d. User_ack d \<notin> set (events (main e argv)))
            \<and> (\<forall>s. Stderr (Continue_prompt s) \<notin> set (events (main e argv)))
            \<and> (reaches_confirm e c \<longrightarrow>
                 status (main e argv) = Exit 0
                 \<and> Stderr Eeprom_stop \<in> set (events (main e argv))))
       \<and> (yes c \<longrightarrow>
            Stderr Eeprom_stop \<notin> set (events (main e argv))
            \<and> (reaches_confirm e c \<and> 0 \<le> ioctl_PEC e
                 \<and> (length_v c = 0 \<or> 0 < length_v c \<and> calloc_ok e) \<longrightarrow>
                 bus_reads (events (main e argv)) \<noteq> []))"
proof -
  have m: "main e argv = main_open e c"
    by (rule main_Inr [OF assms(1)])
  let ?cf = "confirm e (address c) (size_v c) (daddress c) (pec c)"
  have cf: "?cf = (False, [Stderr Confuse_warning, Stderr Eeprom_stop])"
    using assms(2-4) by (simp add: confirm_def)
  have n1: "bus_reads (events (main e argv)) = [] \<and> stdout (main e argv) = []" if "\<not> yes c"
  proof -
    from that cf have "\<not> passes_checks e c"
      by (simp add: passes_checks_def)
    from main_open_fails [OF this] show ?thesis
      by (simp add: m)
  qed
  have n2: "User_ack d \<notin> set (events (main e argv))" for d
    using assms(2-4) User_ack_in_run [of d e c] by (auto simp: m)
  have n3: "Stderr (Continue_prompt s) \<notin> set (events (main e argv))" for s
    using assms(2-4) Continue_prompt_in_run [of s e c] by (auto simp: m)
  have n4: "status (main e argv) = Exit 0 \<and> Stderr Eeprom_stop \<in> set (events (main e argv))"
    if "\<not> yes c" and "reaches_confirm e c"
  proof -
    from cf have "\<not> fst ?cf" and "Stderr Eeprom_stop \<in> set (snd ?cf)"
      by simp_all
    with declined_run [OF that(2) that(1)] confirm_events_in_run [OF that(2) that(1)]
    show ?thesis by (simp add: m)
  qed
  have y1: "Stderr Eeprom_stop \<notin> set (events (main e argv))" if "yes c"
    using that Eeprom_stop_in_run [of e c] by (auto simp: m)
  have y2: "bus_reads (events (main e argv)) \<noteq> []"
    if "yes c" and "reaches_confirm e c" and "0 \<le> ioctl_PEC e"
      and "length_v c = 0 \<or> 0 < length_v c \<and> calloc_ok e"
  proof -
    from that assms(4) have "passes_checks e c"
      by (simp add: passes_checks_def)
    with that(4) show ?thesis
      by (simp add: m bus_reads_main_open)
  qed
  from n1 n2 n3 n4 y1 y2 show ?thesis by blast
qed

text \<open>The chip address 0x50 with the mode \<open>bp\<close>, without and with \<open>-y\<close>.\<close>

theorem eeprom_pec_refused_unless_yes_witness:
  "main env_ok [''i2cget'', ''1'', ''0x50'', ''0x10'', ''bp''] =
     \<lparr>status = Exit 0, stdout = [],
      events = [Open_i2c_dev 3, Ioctl_FUNCS, Set_slave_addr 0x50 False,
                Stderr Confuse_warning, Stderr Eeprom_stop]\<rparr>
   \<and> bus_reads (events (main env_ok [''i2cget'', ''-y'', ''1'', ''0x50'', ''0x10'', ''bp''])) \<noteq> []"
proof -
  let ?A = "[''i2cget'', ''1'', ''0x50'', ''0x10'', ''bp'']"
  let ?C = "\<lparr>flags = 0, force = False, yes = False, version = False, length_v = 0,
          i2cbus = 1, address = 0x50, size_v = I2C_SMBUS_BYTE_DATA, daddress = 16,
          daddrlen = 1, pec = True\<rparr>"
  let ?B = "[''i2cget'', ''-y'', ''1'', ''0x50'', ''0x10'', ''bp'']"
  let ?D = "\<lparr>flags = 1, force = False, yes = True, version = False, length_v = 0,
          i2cbus = 1, address = 0x50, size_v = I2C_SMBUS_BYTE_DATA, daddress = 16,
          daddrlen = 1, pec = True\<rparr>"
  have 1: "parse_args env_ok ?A = Inr ?C"
    by (simp add: run_defs)
  have 2: "reaches_confirm env_ok ?C"
    by (simp add: run_defs)
  from eeprom_pec_refused_unless_yes [of env_ok ?A ?C] 1 2
  have 3: "bus_reads (events (main env_ok ?A)) = [] \<and> status (main env_ok ?A) = Exit 0"
    by simp
  have 4: "main env_ok ?A =
     \<lparr>status = Exit 0, stdout = [],
      events = [Open_i2c_dev 3, Ioctl_FUNCS, Set_slave_addr 0x50 False,
                Stderr Confuse_warning, Stderr Eeprom_stop]\<rparr>"
    by (simp add: run_defs)
  have 5: "parse_args env_ok ?B = Inr ?D"
    by (simp add: run_defs)
  have 6: "reaches_confirm env_ok ?D"
    by (simp add: run_defs)
  have 7: "0 \<le> ioctl_PEC env_ok"
    by (simp add: env_ok_def)
  from eeprom_pec_refused_unless_yes [of env_ok ?B ?D] 5 6 7
  have 8: "bus_reads (events (main env_ok ?B)) \<noteq> []"
    by simp
  from 3 4 8 show ?thesis by blast
qed

subsection \<open>C3: the capability check of a raw read\<close>

text \<open>
  Claim C3 says that no SMBus capability can make a raw read fail. \<open>check_funcs\<close> does
  not know the length: line 260 calls it with \<open>size\<close>, which the positional arguments
  have set, so a raw read still needs the capability of that \<open>size\<close>. On an adapter that
  reports \<open>I2C_FUNC_I2C\<close> alone, a raw read of two bytes with no data address
  (\<open>size = I2C_SMBUS_BYTE\<close>) stops with \<open>exit(1)\<close> for the missing "SMBus receive byte".
\<close>

theorem raw_read_capability_counterexample:
  "main (env_ok\<lparr>ioctl_FUNCS := Some I2C_FUNC_I2C\<rparr>)
        [''i2cget'', ''-y'', ''-l'', ''2'', ''1'', ''0x48''] =
     \<lparr>status = Exit 1, stdout = [],
      events = [Open_i2c_dev 3, Ioctl_FUNCS, Stderr (Missing_func ''SMBus receive byte'')]\<rparr>"
  by (simp add: run_defs)

text \<open>
  Claim C3, amended. With a raw length, \<open>check_funcs\<close> makes the same check as without:
  "receive byte" (and "send byte" with a data address) for \<open>I2C_SMBUS_BYTE\<close>, "read
  byte" for \<open>I2C_SMBUS_BYTE_DATA\<close>, "read word" for \<open>I2C_SMBUS_WORD_DATA\<close>. A missing
  capability ends the run with \<open>exit(1)\<close> right after the query; when it is there, the
  check passes whatever the other bits are: nothing is required for the raw transfer
  itself, \<open>I2C_FUNC_I2C\<close> included.
\<close>

theorem raw_read_capability_check:
  assumes "parse_args e argv = Inr c" and "length_v c \<noteq> 0"
    and "0 \<le> open_i2c_dev e (i2cbus c)" and "ioctl_FUNCS e = Some f"
  shows "(size_v c = I2C_SMBUS_BYTE \<and> f AND I2C_FUNC_SMBUS_READ_BYTE = 0 \<longrightarrow>
            main e argv = exit_with 1 [Open_i2c_dev (open_i2c_dev e (i2cbus c)), Ioctl_FUNCS,
                                       Stderr (Missing_func ''SMBus receive byte'')])
       \<and> (size_v c = I2C_SMBUS_BYTE \<and> f AND I2C_FUNC_SMBUS_READ_BYTE \<noteq> 0
            \<and> 0 \<le> daddress c \<and> f AND I2C_FUNC_SMBUS_WRITE_BYTE = 0 \<longrightarrow>
            main e argv = exit_with 1 [Open_i2c_dev (open_i2c_dev e (i2cbus c)), Ioctl_FUNCS,
                                       Stderr (Missing_func ''SMBus send byte'')])
       \<and> (size_v c = I2C_SMBUS_BYTE_DATA \<and> f AND I2C_FUNC_SMBUS_READ_BYTE_DATA = 0 \<longrightarrow>
            main e argv = exit_with 1 [Open_i2c_dev (open_i2c_dev e (i2cbus c)), Ioctl_FUNCS,
                                       Stderr (Missing_func ''SMBus read byte'')])
       \<and> (size_v c = I2C_SMBUS_WORD_DATA \<and> f AND I2C_FUNC_SMBUS_READ_WORD_DATA = 0 \<longrightarrow>
            main e argv = exit_with 1 [Open_i2c_dev (open_i2c_dev e (i2cbus c)), Ioctl_FUNCS,
                                       Stderr (Missing_func ''SMBus read word'')])
       \<and> ((size_v c = I2C_SMBUS_BYTE \<and> f AND I2C_FUNC_SMBUS_READ_BYTE \<noteq> 0
             \<and> (daddress c < 0 \<or> f AND I2C_FUNC_SMBUS_WRITE_BYTE \<noteq> 0)
            \<or> size_v c = I2C_SMBUS_BYTE_DATA \<and> f AND I2C_FUNC_SMBUS_READ_BYTE_DATA \<noteq> 0
            \<or> size_v c = I2C_SMBUS_WORD_DATA \<and> f AND I2C_FUNC_SMBUS_READ_WORD_DATA \<noteq> 0) \<longrightarrow>
            fst (check_funcs e (size_v c) (daddress c) (pec c)) = 0)"
proof -
  have m: "main e argv = main_open e c"
    by (rule main_Inr [OF assms(1)])
  note fail = main_open_check_fails [OF assms(3) assms(4)]
  show ?thesis
    unfolding m
    by (intro conjI impI fail)
      (auto simp: funcs_switch_def check_funcs_def assms(4))
qed

text \<open>
  An adapter that reports "receive byte" alone: a raw read with a data address fails
  for "read byte", one without a data address is carried out.
\<close>

theorem raw_read_capability_check_witness:
  "main (env_ok\<lparr>ioctl_FUNCS := Some I2C_FUNC_SMBUS_READ_BYTE\<rparr>)
        [''i2cget'', ''-y'', ''-l'', ''2'', ''1'', ''0x48'', ''0x10''] =
     exit_with 1 [Open_i2c_dev 3, Ioctl_FUNCS, Stderr (Missing_func ''SMBus read byte'')]
   \<and> events (main (env_ok\<lparr>ioctl_FUNCS := Some I2C_FUNC_SMBUS_READ_BYTE\<rparr>)
        [''i2cget'', ''-y'', ''-l'', ''2'', ''1'', ''0x48'']) =
       [Open_i2c_dev 3, Ioctl_FUNCS, Set_slave_addr 0x48 False, Read 2, Close]"
proof -
  let ?e = "env_ok\<lparr>ioctl_FUNCS := Some I2C_FUNC_SMBUS_READ_BYTE\<rparr>"
  let ?A = "[''i2cget'', ''-y'', ''-l'', ''2'', ''1'', ''0x48'', ''0x10'']"
  let ?C = "\<lparr>flags = 3, force = False, yes = True, version = False, length_v = 2,
          i2cbus = 1, address = 0x48, size_v = I2C_SMBUS_BYTE_DATA, daddress = 16,
          daddrlen = 1, pec = False\<rparr>"
  have 1: "parse_args ?e ?A = Inr ?C"
    by (simp add: run_defs)
  have 2: "0 \<le> open_i2c_dev ?e (i2cbus ?C)" "open_i2c_dev ?e (i2cbus ?C) = 3"
    by (simp_all add: env_ok_def)
  have 3: "ioctl_FUNCS ?e = Some I2C_FUNC_SMBUS_READ_BYTE"
    by (simp add: env_ok_def)
  have 4: "I2C_FUNC_SMBUS_READ_BYTE AND I2C_FUNC_SMBUS_READ_BYTE_DATA = 0"
    by (simp add: I2C_FUNC_SMBUS_READ_BYTE_def I2C_FUNC_SMBUS_READ_BYTE_DATA_def)
  from raw_read_capability_check [of ?e ?A ?C I2C_FUNC_SMBUS_READ_BYTE] 1 2 3 4
  have 5: "main ?e ?A =
     exit_with 1 [Open_i2c_dev 3, Ioctl_FUNCS, Stderr (Missing_func ''SMBus read byte'')]"
    by simp
  have 6: "events (main ?e [''i2cget'', ''-y'', ''-l'', ''2'', ''1'', ''0x48'']) =
       [Open_i2c_dev 3, Ioctl_FUNCS, Set_slave_addr 0x48 False, Read 2, Close]"
    by (simp add: run_defs)
  from 5 6 show ?thesis by blast
qed

subsection \<open>C4: the output of a raw read\<close>

text \<open>
  The buffer is a \<open>char *\<close> and its elements are printed with \<open>%02X\<close>. Where plain \<open>char\<close>
  is unsigned, or for the bytes below 0x80, each byte is printed as two digits, packed
  for the lengths 1, 2, 4, 8 and separated by spaces otherwise (lemma
  \<open>print_raw_two_digits\<close> above). Where plain \<open>char\<close> is signed, a byte from 0x80 on is
  promoted to a negative \<open>int\<close> and printed with eight digits at least (lemma
  \<open>printf_signed_char_eight_digits\<close>).

  Claim C4 (every byte is printed as exactly two hexadecimal digits) at the byte 0x80
  with a signed \<open>char\<close>: a raw read of one byte prints \<open>0xFFFFFF80\<close>, and one of three
  bytes prints \<open>0xFFFFFF80 0x01 0x02\<close>; with an unsigned \<open>char\<close> the first prints \<open>0x80\<close>.
\<close>

theorem raw_output_signed_char:
  "main env_ok [''i2cget'', ''-y'', ''-l'', ''1'', ''1'', ''0x48''] =
     \<lparr>status = Exit 0, stdout = ''0xFFFFFF80'' @ [CHR 0x0A],
      events = [Open_i2c_dev 3, Ioctl_FUNCS, Set_slave_addr 0x48 False, Read 1, Close]\<rparr>
   \<and> stdout (main env_ok [''i2cget'', ''-y'', ''-l'', ''3'', ''1'', ''0x48'']) =
       ''0xFFFFFF80 0x01 0x02'' @ [CHR 0x0A]
   \<and> stdout (main (env_ok\<lparr>char_signed := False\<rparr>) [''i2cget'', ''-y'', ''-l'', ''1'', ''1'', ''0x48'']) =
       ''0x80'' @ [CHR 0x0A]"
  by (simp add: run_defs)

subsection \<open>C5: the bytes of the data address\<close>

text \<open>
  For a data address below \<open>2 ^ 24\<close> the loop of lines 234 and 235 ends with the least
  \<open>n\<close> such that the address is below \<open>2 ^ (8 * n)\<close>, and \<open>writeaddr\<close> writes
  \<open>min n 2\<close> bytes, most significant first, which decode to the address modulo
  \<open>2 ^ (8 * min n 2)\<close>.
\<close>

theorem address_encoder_below_2_24:
  assumes "0 \<le> a" and "a < 2 ^ 24"
  shows "\<exists>n bs. daddrlen_loop a 0 = Some n
           \<and> a < 2 ^ (8 * n) \<and> (\<forall>k<n. 2 ^ (8 * k) \<le> a)
           \<and> writeaddr e a n =
               Write bs # (if write_ret e bs \<noteq> int (min n 2) then [Stderr Write_failed_warning] else [])
           \<and> length bs = min n 2
           \<and> decode_be bs = nat a mod 2 ^ (8 * min n 2)"
proof -
  note L = daddrlen_loop_cases [OF assms(1)]
  note W = writeaddr_bytes [OF assms(1), of e]
  note D1 = decode_one_byte [OF assms(1)]
  note D2 = decode_two_bytes [OF assms(1)]
  consider "a = 0" | "0 < a" "a < 2 ^ 8" | "2 ^ 8 \<le> a" "a < 2 ^ 16" | "2 ^ 16 \<le> a"
    using assms(1) by linarith
  then show ?thesis
  proof cases
    case 1
    with L W [of 0] show ?thesis
      by (intro exI [of _ 0] exI [of _ "[]"]) (simp add: decode_be_simps)
  next
    case 2
    then show ?thesis
      by (intro exI [of _ 1] exI [of _ "[word_of_int (a AND 0xff)]"])
        (simp add: L W D1)
  next
    case 3
    have q: "2 ^ (8 * k) \<le> a" if "k < 2" for k
    proof -
      from that consider "k = 0" | "k = 1" by linarith
      then show ?thesis using 3 by cases simp_all
    qed
    from 3 show ?thesis
      by (intro exI [of _ 2]
          exI [of _ "[word_of_int (drop_bit 8 a AND 0xff), word_of_int (a AND 0xff)]"])
        (simp add: L W D2 q)
  next
    case 4
    have q: "2 ^ (8 * k) \<le> a" if "k < 3" for k
    proof -
      from that consider "k = 0" | "k = 1" | "k = 2" by linarith
      then show ?thesis using 4 by cases simp_all
    qed
    from 4 assms(2) show ?thesis
      by (intro exI [of _ 3]
          exI [of _ "[word_of_int (drop_bit 8 a AND 0xff), word_of_int (a AND 0xff)]"])
        (simp add: L W D2 q)
  qed
qed

text \<open>
  Claim C5 (for every non-negative address the encoder emits the low-order bytes, two at
  most) at the address 0x1000000: the loop gets to \<open>daddrlen = 4\<close> and evaluates
  \<open>daddress >> 32\<close>, a shift of an \<open>int\<close> by its width, which has no defined value. The run
  has no defined behaviour and the model gives no event for it. The three-byte address
  0x123456 is cut to its two low-order bytes.
\<close>

theorem wide_address_undefined:
  "daddrlen_loop 16777216 0 = None
   \<and> main env_ok [''i2cget'', ''-y'', ''1'', ''0x48'', ''0x1000000''] =
       \<lparr>status = Undefined, stdout = [], events = []\<rparr>
   \<and> events (main env_ok [''i2cget'', ''-y'', ''-l'', ''2'', ''1'', ''0x48'', ''0x123456'']) =
       [Open_i2c_dev 3, Ioctl_FUNCS, Set_slave_addr 0x48 False, Write [0x34, 0x56], Read 2, Close]"
  by (simp add: run_defs)

subsection \<open>C6: a raw read succeeds only with the requested count\<close>

text \<open>
  Claim C6. In every run that performs the raw read (the event \<open>Read n\<close>), \<open>n\<close> is the
  requested length and is positive, it is the only read of the run, and the run ends
  with \<open>exit(0)\<close> exactly when \<open>read\<close> returned \<open>n\<close>; for every other return value (a short
  read, or the error value) it ends with \<open>exit(2)\<close> and nothing is printed on the
  standard output.
\<close>

theorem raw_read_exact_length:
  assumes "parse_args e argv = Inr c" and "Read n \<in> set (events (main e argv))"
  shows "n = length_v c \<and> 0 < n
       \<and> bus_reads (events (main e argv)) = [Read n]
       \<and> status (main e argv) = (if fst (read_ret e n) = n then Exit 0 else Exit 2)
       \<and> (fst (read_ret e n) \<noteq> n \<longrightarrow> stdout (main e argv) = [])"
proof -
  have m: "main e argv = main_open e c"
    by (rule main_Inr [OF assms(1)])
  from assms(2) have "Read n \<in> set (events (main_open e c))"
    by (simp add: m)
  from Read_in_events [OF this]
  have p: "passes_checks e c" and n: "n = length_v c" "0 < n" and a: "calloc_ok e"
    by simp_all
  have r: "bus_reads (events (main e argv)) = [Read n]"
    using p n a by (simp add: m bus_reads_main_open)
  have s: "status (main e argv) = (if fst (read_ret e n) = n then Exit 0 else Exit 2)"
    using p n a
    by (auto simp: m main_open_passes main_transaction_def main_print_def exit_with_def Let_def)
  have o: "stdout (main e argv) = []" if "fst (read_ret e n) \<noteq> n"
    using p n a that
    by (auto simp: m main_open_passes main_transaction_def main_print_def exit_with_def Let_def)
  from n r s o show ?thesis by blast
qed

text \<open>
  Four bytes requested at the data address 0: a device that returns three bytes makes
  the run fail with status 2 and no output, one that returns four makes it succeed.
\<close>

theorem raw_read_exact_length_witness:
  "Read 4 \<in> set (events (main (env_ok\<lparr>read_ret := \<lambda>n. (3, [0x0a, 0x0b, 0x0c])\<rparr>)
                      [''i2cget'', ''-y'', ''-l'', ''4'', ''1'', ''0x48'', ''0x00'']))
   \<and> main (env_ok\<lparr>read_ret := \<lambda>n. (3, [0x0a, 0x0b, 0x0c])\<rparr>)
        [''i2cget'', ''-y'', ''-l'', ''4'', ''1'', ''0x48'', ''0x00''] =
      \<lparr>status = Exit 2, stdout = [],
       events = [Open_i2c_dev 3, Ioctl_FUNCS, Set_slave_addr 0x48 False, Write [],
                 Read 4, Close, Stderr Read_failed]\<rparr>
   \<and> status (main env_ok [''i2cget'', ''-y'', ''-l'', ''4'', ''1'', ''0x48'', ''0x00'']) = Exit 0"
proof -
  let ?A = "[''i2cget'', ''-y'', ''-l'', ''4'', ''1'', ''0x48'', ''0x00'']"
  let ?C = "\<lparr>flags = 3, force = False, yes = True, version = False, length_v = 4,
          i2cbus = 1, address = 0x48, size_v = I2C_SMBUS_BYTE_DATA, daddress = 0,
          daddrlen = 0, pec = False\<rparr>"
  let ?e = "env_ok\<lparr>read_ret := \<lambda>n. (3, [0x0a, 0x0b, 0x0c])\<rparr>"
  have 1: "main ?e ?A =
      \<lparr>status = Exit 2, stdout = [],
       events = [Open_i2c_dev 3, Ioctl_FUNCS, Set_slave_addr 0x48 False, Write [],
                 Read 4, Close, Stderr Read_failed]\<rparr>"
    by (simp add: run_defs)
  have 2: "parse_args ?e ?A = Inr ?C"
    by (simp add: run_defs)
  have 3: "Read 4 \<in> set (events (main ?e ?A))"
    by (simp add: 1)
  have 4: "parse_args env_ok ?A = Inr ?C"
    by (simp add: run_defs)
  have 5: "Read 4 \<in> set (events (main env_ok ?A))"
    by (simp add: run_defs)
  from raw_read_exact_length [OF 4 5] have 6: "status (main env_ok ?A) = Exit 0"
    by (simp add: env_ok_def)
  from raw_read_exact_length [OF 2 3] have "status (main ?e ?A) = Exit 2"
    by (simp add: env_ok_def)
  with 1 3 6 show ?thesis by blast
qed

subsection \<open>C7: closing the device\<close>

text \<open>
  The run calls \<open>close\<close> exactly when it gets past the confirmation (lemma
  \<open>close_iff_confirmed\<close> above): the exits at lines 262 and 265 leave without it.

  Claim C7 (the device is closed on every exit path after it was opened) on four runs
  that open the device: the operator declines the confirmation; the adapter lacks the
  capability; the address cannot be bound; the PEC ioctl fails. Only the last one calls
  \<open>close\<close>.
\<close>

theorem exit_without_close:
  "main (env_ok\<lparr>user_ack := \<lambda>d. False\<rparr>) [''i2cget'', ''1'', ''0x48''] =
     \<lparr>status = Exit 0, stdout = [],
      events = [Open_i2c_dev 3, Ioctl_FUNCS, Set_slave_addr 0x48 False,
                Stderr Confuse_warning, Stderr (Will_read 0x48 (- 1) I2C_SMBUS_BYTE),
                Stderr (Continue_prompt ''Y/n''), User_ack True,
                Stderr Aborting_on_user_request]\<rparr>
   \<and> main (env_ok\<lparr>ioctl_FUNCS := Some 0\<rparr>) [''i2cget'', ''-y'', ''1'', ''0x48''] =
     \<lparr>status = Exit 1, stdout = [],
      events = [Open_i2c_dev 3, Ioctl_FUNCS, Stderr (Missing_func ''SMBus receive byte'')]\<rparr>
   \<and> main (env_ok\<lparr>set_slave_addr := \<lambda>a f. - 1\<rparr>) [''i2cget'', ''-y'', ''1'', ''0x48''] =
     \<lparr>status = Exit 1, stdout = [],
      events = [Open_i2c_dev 3, Ioctl_FUNCS, Set_slave_addr 0x48 False]\<rparr>
   \<and> main (env_ok\<lparr>ioctl_PEC := - 1\<rparr>) [''i2cget'', ''-y'', ''1'', ''0x48'', ''0x10'', ''bp''] =
     \<lparr>status = Exit 1, stdout = [],
      events = [Open_i2c_dev 3, Ioctl_FUNCS, Set_slave_addr 0x48 False, Ioctl_PEC,
                Stderr Could_not_set_pec, Close]\<rparr>"
  by (simp add: run_defs)

subsection \<open>C8: the default answer of the confirmation\<close>

text \<open>
  Claim C8 gives the default "no" to the runs that select the read of the current byte
  with a data address and PEC, and the default "yes" to every other confirmation.
  \<open>confirm\<close> is called with \<open>size\<close> and does not know the length: with \<open>-l 2\<close> and the mode
  \<open>cp\<close> the transaction is the raw read of two bytes (it is carried out when the operator
  says yes), and still the prompt is \<open>[y/N]\<close> and \<open>user_ack\<close> is called with the default 0.
\<close>

theorem confirm_default_raw_counterexample:
  "main env_ok [''i2cget'', ''-l'', ''2'', ''1'', ''0x48'', ''0x10'', ''cp''] =
     \<lparr>status = Exit 0, stdout = [],
      events = [Open_i2c_dev 3, Ioctl_FUNCS, Set_slave_addr 0x48 False,
                Stderr Confuse_warning, Stderr Write_byte_pec_warning,
                Stderr (Will_read 0x48 16 I2C_SMBUS_BYTE), Stderr Pec_checking_enabled,
                Stderr (Continue_prompt ''y/N''), User_ack False,
                Stderr Aborting_on_user_request]\<rparr>
   \<and> bus_reads (events (main (env_ok\<lparr>user_ack := \<lambda>d. True\<rparr>)
         [''i2cget'', ''-l'', ''2'', ''1'', ''0x48'', ''0x10'', ''cp''])) = [Read 2]"
  by (simp add: run_defs)

text \<open>
  Claim C8, amended: the case of the default "no" is \<open>size = I2C_SMBUS_BYTE\<close> with a
  data address, which is the mode argument \<open>c\<close>, and PEC, with or without a raw length.
  In a run without \<open>-y\<close>, with \<open>size = I2C_SMBUS_BYTE\<close>, a data address and PEC,
  \<open>confirm\<close> never asks with the default "yes": when it asks (the chip address
  is outside 0x50 to 0x57, where it refuses without asking) the prompt is \<open>[y/N]\<close> and
  \<open>user_ack\<close> is called with the default 0, and when \<open>user_ack\<close> does not return "yes" for
  that default the run ends with \<open>exit(0)\<close>, without output and without a read. In every
  other case in which \<open>confirm\<close> asks, the prompt is \<open>[Y/n]\<close> and the default is 1.
  What \<open>user_ack\<close> (of \<open>util.c\<close>) makes of the operator's answer is \<open>user_ack e\<close>.
\<close>

theorem confirm_default:
  assumes "parse_args e argv = Inr c" and "\<not> yes c"
  shows "(size_v c = I2C_SMBUS_BYTE \<and> 0 \<le> daddress c) =
           (flags c + 4 < length argv \<and> c_at (argv ! (flags c + 4)) 0 = CHR ''c'')
       \<and> (size_v c = I2C_SMBUS_BYTE \<and> 0 \<le> daddress c \<and> pec c \<longrightarrow>
            User_ack True \<notin> set (events (main e argv))
            \<and> Stderr (Continue_prompt ''Y/n'') \<notin> set (events (main e argv))
            \<and> (reaches_confirm e c \<and> \<not> (0x50 \<le> address c \<and> address c \<le> 0x57) \<longrightarrow>
                 User_ack False \<in> set (events (main e argv))
                 \<and> Stderr (Continue_prompt ''y/N'') \<in> set (events (main e argv)))
            \<and> (reaches_confirm e c \<and> \<not> user_ack e False \<longrightarrow>
                 status (main e argv) = Exit 0 \<and> stdout (main e argv) = []
                 \<and> bus_reads (events (main e argv)) = []))
       \<and> (\<not> (size_v c = I2C_SMBUS_BYTE \<and> 0 \<le> daddress c \<and> pec c) \<longrightarrow>
            User_ack False \<notin> set (events (main e argv))
            \<and> Stderr (Continue_prompt ''y/N'') \<notin> set (events (main e argv))
            \<and> (reaches_confirm e c \<and> \<not> (0x50 \<le> address c \<and> address c \<le> 0x57 \<and> pec c) \<longrightarrow>
                 User_ack True \<in> set (events (main e argv))
                 \<and> Stderr (Continue_prompt ''Y/n'') \<in> set (events (main e argv))))"
proof -
  have m: "main e argv = main_open e c"
    by (rule main_Inr [OF assms(1)])
  let ?dont = "size_v c = I2C_SMBUS_BYTE \<and> 0 \<le> daddress c \<and> pec c"
  let ?cf = "confirm e (address c) (size_v c) (daddress c) (pec c)"
  have a1: "User_ack True \<notin> set (events (main e argv))" if "?dont"
    using that User_ack_in_run [of True e c] by (auto simp: m)
  have a2: "Stderr (Continue_prompt ''Y/n'') \<notin> set (events (main e argv))" if "?dont"
    using that Continue_prompt_in_run [of "''Y/n''" e c] by (auto simp: m)
  have a3: "User_ack False \<in> set (events (main e argv))
            \<and> Stderr (Continue_prompt ''y/N'') \<in> set (events (main e argv))"
    if "?dont" and "reaches_confirm e c" and "\<not> (0x50 \<le> address c \<and> address c \<le> 0x57)"
  proof -
    from that have "User_ack False \<in> set (snd ?cf)"
      and "Stderr (Continue_prompt ''y/N'') \<in> set (snd ?cf)"
      by (auto simp: confirm_def Let_def)
    with that(2) assms(2) show ?thesis
      by (simp add: m confirm_events_in_run)
  qed
  have a4: "status (main e argv) = Exit 0 \<and> stdout (main e argv) = []
            \<and> bus_reads (events (main e argv)) = []"
    if "?dont" and "reaches_confirm e c" and "\<not> user_ack e False"
  proof -
    from that have "\<not> fst ?cf"
      by (auto simp: confirm_def Let_def)
    from declined_run [OF that(2) assms(2) this] show ?thesis
      by (simp add: m)
  qed
  have b1: "User_ack False \<notin> set (events (main e argv))" if "\<not> ?dont"
    using that User_ack_in_run [of False e c] by (auto simp: m)
  have b2: "Stderr (Continue_prompt ''y/N'') \<notin> set (events (main e argv))" if "\<not> ?dont"
    using that Continue_prompt_in_run [of "''y/N''" e c] by (auto simp: m)
  have b3: "User_ack True \<in> set (events (main e argv))
            \<and> Stderr (Continue_prompt ''Y/n'') \<in> set (events (main e argv))"
    if "\<not> ?dont" and "reaches_confirm e c"
      and "\<not> (0x50 \<le> address c \<and> address c \<le> 0x57 \<and> pec c)"
  proof -
    from that have "User_ack True \<in> set (snd ?cf)"
      and "Stderr (Continue_prompt ''Y/n'') \<in> set (snd ?cf)"
      by (auto simp: confirm_def Let_def)
    with that(2) assms(2) show ?thesis
      by (simp add: m confirm_events_in_run)
  qed
  have md: "(size_v c = I2C_SMBUS_BYTE \<and> 0 \<le> daddress c) =
           (flags c + 4 < length argv \<and> c_at (argv ! (flags c + 4)) 0 = CHR ''c'')"
    using parse_args_argv(2) [OF assms(1)] parse_args_argv(7) [OF assms(1)]
    by (auto simp: parse_args_argv(6) [OF assms(1)])
  from a1 a2 a3 a4 b1 b2 b3 have
    "(size_v c = I2C_SMBUS_BYTE \<and> 0 \<le> daddress c \<and> pec c \<longrightarrow>
            User_ack True \<notin> set (events (main e argv))
            \<and> Stderr (Continue_prompt ''Y/n'') \<notin> set (events (main e argv))
            \<and> (reaches_confirm e c \<and> \<not> (0x50 \<le> address c \<and> address c \<le> 0x57) \<longrightarrow>
                 User_ack False \<in> set (events (main e argv))
                 \<and> Stderr (Continue_prompt ''y/N'') \<in> set (events (main e argv)))
            \<and> (reaches_confirm e c \<and> \<not> user_ack e False \<longrightarrow>
                 status (main e argv) = Exit 0 \<and> stdout (main e argv) = []
                 \<and> bus_reads (events (main e argv)) = []))
       \<and> (\<not> (size_v c = I2C_SMBUS_BYTE \<and> 0 \<le> daddress c \<and> pec c) \<longrightarrow>
            User_ack False \<notin> set (events (main e argv))
            \<and> Stderr (Continue_prompt ''y/N'') \<notin> set (events (main e argv))
            \<and> (reaches_confirm e c \<and> \<not> (0x50 \<le> address c \<and> address c \<le> 0x57 \<and> pec c) \<longrightarrow>
                 User_ack True \<in> set (events (main e argv))
                 \<and> Stderr (Continue_prompt ''Y/n'') \<in> set (events (main e argv))))"
    by blast
  with md show ?thesis by (rule conjI)
qed

text \<open>
  Mode \<open>cp\<close> at the data address 0x10, answered with an empty line: the run stops with
  \<open>exit(0)\<close>. Mode \<open>w\<close>: the default is "yes". Mode \<open>cp\<close> with \<open>-l 2\<close>: the default is "no".
\<close>

theorem confirm_default_witness:
  "main env_ok [''i2cget'', ''1'', ''0x48'', ''0x10'', ''cp''] =
     \<lparr>status = Exit 0, stdout = [],
      events = [Open_i2c_dev 3, Ioctl_FUNCS, Set_slave_addr 0x48 False,
                Stderr Confuse_warning, Stderr Write_byte_pec_warning,
                Stderr (Will_read 0x48 16 I2C_SMBUS_BYTE), Stderr Pec_checking_enabled,
                Stderr (Continue_prompt ''y/N''), User_ack False,
                Stderr Aborting_on_user_request]\<rparr>
   \<and> User_ack True \<in> set (events (main env_ok [''i2cget'', ''1'', ''0x48'', ''0x10'', ''w'']))
   \<and> User_ack False \<notin> set (events (main env_ok [''i2cget'', ''1'', ''0x48'', ''0x10'', ''w'']))
   \<and> User_ack False \<in> set (events (main env_ok
         [''i2cget'', ''-l'', ''2'', ''1'', ''0x48'', ''0x10'', ''cp'']))
   \<and> User_ack True \<notin> set (events (main env_ok
         [''i2cget'', ''-l'', ''2'', ''1'', ''0x48'', ''0x10'', ''cp'']))"
proof -
  let ?A = "[''i2cget'', ''1'', ''0x48'', ''0x10'', ''cp'']"
  let ?C = "\<lparr>flags = 0, force = False, yes = False, version = False, length_v = 0,
          i2cbus = 1, address = 0x48, size_v = I2C_SMBUS_BYTE, daddress = 16,
          daddrlen = 1, pec = True\<rparr>"
  let ?B = "[''i2cget'', ''1'', ''0x48'', ''0x10'', ''w'']"
  let ?D = "\<lparr>flags = 0, force = False, yes = False, version = False, length_v = 0,
          i2cbus = 1, address = 0x48, size_v = I2C_SMBUS_WORD_DATA, daddress = 16,
          daddrlen = 1, pec = False\<rparr>"
  have 1: "parse_args env_ok ?A = Inr ?C"
    by (simp add: run_defs)
  have 2: "reaches_confirm env_ok ?C"
    by (simp add: run_defs)
  have 3: "\<not> user_ack env_ok False"
    by (simp add: env_ok_def)
  from confirm_default [of env_ok ?A ?C] 1 2 3
  have 4: "status (main env_ok ?A) = Exit 0 \<and> stdout (main env_ok ?A) = []
           \<and> User_ack False \<in> set (events (main env_ok ?A))"
    by simp
  have 5: "main env_ok ?A =
     \<lparr>status = Exit 0, stdout = [],
      events = [Open_i2c_dev 3, Ioctl_FUNCS, Set_slave_addr 0x48 False,
                Stderr Confuse_warning, Stderr Write_byte_pec_warning,
                Stderr (Will_read 0x48 16 I2C_SMBUS_BYTE), Stderr Pec_checking_enabled,
                Stderr (Continue_prompt ''y/N''), User_ack False,
                Stderr Aborting_on_user_request]\<rparr>"
    by (simp add: run_defs)
  have 6: "parse_args env_ok ?B = Inr ?D"
    by (simp add: run_defs)
  have 7: "reaches_confirm env_ok ?D"
    by (simp add: run_defs)
  from confirm_default [of env_ok ?B ?D] 6 7
  have 8: "User_ack True \<in> set (events (main env_ok ?B))
           \<and> User_ack False \<notin> set (events (main env_ok ?B))"
    by simp
  let ?E = "[''i2cget'', ''-l'', ''2'', ''1'', ''0x48'', ''0x10'', ''cp'']"
  let ?F = "\<lparr>flags = 2, force = False, yes = False, version = False, length_v = 2,
          i2cbus = 1, address = 0x48, size_v = I2C_SMBUS_BYTE, daddress = 16,
          daddrlen = 1, pec = True\<rparr>"
  have 9: "parse_args env_ok ?E = Inr ?F"
    by (simp add: run_defs)
  have 10: "reaches_confirm env_ok ?F"
    by (simp add: run_defs)
  from confirm_default [of env_ok ?E ?F] 9 10
  have 11: "User_ack False \<in> set (events (main env_ok ?E))
            \<and> User_ack True \<notin> set (events (main env_ok ?E))"
    by simp
  from 4 5 8 11 show ?thesis by blast
qed

subsection \<open>C9: the data address 0 has width 0\<close>

text \<open>
  Claim C9. When the data address argument is 0, the loop of lines 234 and 235 leaves
  \<open>daddrlen\<close> at 0, so \<open>writeaddr\<close> calls \<open>write\<close> with no byte at all: on the two paths
  that call \<open>writeaddr\<close> (a raw read, and \<open>I2C_SMBUS_BYTE\<close> with a data address) a run
  that gets there writes an empty buffer before the read, and no run writes anything else.
\<close>

theorem zero_address_writes_no_bytes:
  assumes "parse_args e argv = Inr c" and "daddress c = 0"
  shows "flags c + 3 < length argv \<and> daddrlen c = 0
       \<and> writeaddr e (daddress c) (daddrlen c) =
           Write [] # (if write_ret e [] \<noteq> 0 then [Stderr Write_failed_warning] else [])
       \<and> (\<forall>bs. Write bs \<in> set (events (main e argv)) \<longrightarrow> bs = [])
       \<and> (passes_checks e c
            \<and> (0 < length_v c \<and> calloc_ok e \<or> length_v c = 0 \<and> size_v c = I2C_SMBUS_BYTE)
          \<longrightarrow> Write [] \<in> set (events (main e argv)))"
proof -
  from parse_args_argv(2) [OF assms(1)] assms(2) have arg: "flags c + 3 < length argv"
    by simp
  from parse_args_argv(3) [OF assms(1) arg] assms(2) have len: "daddrlen c = 0"
    by (simp add: daddrlen_loop_0)
  have wr: "writeaddr e (daddress c) (daddrlen c) =
           Write [] # (if write_ret e [] \<noteq> 0 then [Stderr Write_failed_warning] else [])"
    by (simp add: writeaddr_def assms(2) len MAX_ADDR_LEN_def)
  have only: "bs = []" if "Write bs \<in> set (events (main e argv))" for bs
  proof -
    from that have "Write bs \<in> set (events (main_open e c))"
      by (simp add: main_Inr [OF assms(1)])
    from events_main_open [OF this] show ?thesis
      by (auto simp: wr Write_pre_events split: if_splits)
  qed
  have some: "Write [] \<in> set (events (main e argv))"
    if "passes_checks e c"
      and "0 < length_v c \<and> calloc_ok e \<or> length_v c = 0 \<and> size_v c = I2C_SMBUS_BYTE"
    using that
    by (auto simp: main_Inr [OF assms(1)] main_open_passes main_transaction_def main_print_def
        exit_with_def wr Let_def)
  from arg len wr only some show ?thesis by blast
qed

text \<open>A raw read of two bytes and a mode \<open>c\<close> read, both at the data address 0.\<close>

theorem zero_address_writes_no_bytes_witness:
  "parse_args env_ok [''i2cget'', ''-y'', ''-l'', ''2'', ''1'', ''0x48'', ''0''] =
     Inr \<lparr>flags = 3, force = False, yes = True, version = False, length_v = 2,
          i2cbus = 1, address = 0x48, size_v = I2C_SMBUS_BYTE_DATA, daddress = 0,
          daddrlen = 0, pec = False\<rparr>
   \<and> Write [] \<in> set (events (main env_ok [''i2cget'', ''-y'', ''-l'', ''2'', ''1'', ''0x48'', ''0'']))
   \<and> events (main env_ok [''i2cget'', ''-y'', ''1'', ''0x48'', ''0x00'', ''c'']) =
       [Open_i2c_dev 3, Ioctl_FUNCS, Set_slave_addr 0x48 False, Write [], Smbus_read_byte, Close]"
proof -
  let ?A = "[''i2cget'', ''-y'', ''-l'', ''2'', ''1'', ''0x48'', ''0'']"
  let ?C = "\<lparr>flags = 3, force = False, yes = True, version = False, length_v = 2,
          i2cbus = 1, address = 0x48, size_v = I2C_SMBUS_BYTE_DATA, daddress = 0,
          daddrlen = 0, pec = False\<rparr>"
  have 1: "parse_args env_ok ?A = Inr ?C"
    by (simp add: run_defs)
  have 2: "passes_checks env_ok ?C"
    by (simp add: run_defs)
  have 3: "calloc_ok env_ok"
    by (simp add: env_ok_def)
  from zero_address_writes_no_bytes [of env_ok ?A ?C] 1 2 3
  have 4: "Write [] \<in> set (events (main env_ok ?A))"
    by simp
  have 5: "events (main env_ok [''i2cget'', ''-y'', ''1'', ''0x48'', ''0x00'', ''c'']) =
       [Open_i2c_dev 3, Ioctl_FUNCS, Set_slave_addr 0x48 False, Write [], Smbus_read_byte, Close]"
    by (simp add: run_defs)
  from 1 4 5 show ?thesis by blast
qed

subsection \<open>C10: when PEC is enabled\<close>

text \<open>
  Claim C10. On every command line that \<open>main\<close> accepts, \<open>pec\<close> is set if and only if
  there is a mode argument (\<open>argv[flags+4]\<close>) whose second character is \<open>p\<close>; without a
  mode argument PEC is never on, and \<open>ioctl(file, I2C_PEC, 1)\<close> is only ever called in a
  run whose command line was accepted with \<open>pec\<close> set. The second character of the mode
  argument is never a reason to reject: lines 246 to 256 accept every mode argument
  whose first character is \<open>b\<close>, \<open>w\<close> or \<open>c\<close>, and a command line whose options, bus,
  chip address and data address were accepted is accepted with such a mode argument
  (\<open>bx\<close>, say), or with none, and then \<open>pec\<close> is as said.
\<close>

theorem pec_iff_mode_p:
  "(parse_args e argv = Inr c \<longrightarrow>
      pec c = (flags c + 4 < length argv \<and> c_at (argv ! (flags c + 4)) 1 = CHR ''p''))
   \<and> (Ioctl_PEC \<in> set (events (main e argv)) \<longrightarrow> (\<exists>c'. parse_args e argv = Inr c' \<and> pec c'))
   \<and> (flags v + 4 < length argv
        \<and> (c_at (argv ! (flags v + 4)) 0 = CHR ''b'' \<or> c_at (argv ! (flags v + 4)) 0 = CHR ''w''
             \<or> c_at (argv ! (flags v + 4)) 0 = CHR ''c'') \<longrightarrow>
        (\<exists>sz'. parse_mode argv v sz = Inr (sz', c_at (argv ! (flags v + 4)) 1 = CHR ''p'')))
   \<and> (parse_flags e argv opts0 = Inr v \<and> \<not> version v \<and> flags v + 3 \<le> length argv
        \<and> 0 \<le> lookup_i2c_bus e (argv ! (flags v + 1))
        \<and> 0 \<le> parse_i2c_address e (argv ! (flags v + 2))
        \<and> parse_daddress e argv v = Inr x
        \<and> (flags v + 4 < length argv \<longrightarrow>
             c_at (argv ! (flags v + 4)) 0 = CHR ''b'' \<or> c_at (argv ! (flags v + 4)) 0 = CHR ''w''
             \<or> c_at (argv ! (flags v + 4)) 0 = CHR ''c'') \<longrightarrow>
        (\<exists>c'. parse_args e argv = Inr c' \<and> flags c' = flags v
           \<and> pec c' = (flags v + 4 < length argv \<and> c_at (argv ! (flags v + 4)) 1 = CHR ''p'')))"
proof (intro conjI impI)
  assume "parse_args e argv = Inr c"
  then show "pec c = (flags c + 4 < length argv \<and> c_at (argv ! (flags c + 4)) 1 = CHR ''p'')"
    by (rule parse_args_argv(5))
next
  assume "flags v + 4 < length argv
        \<and> (c_at (argv ! (flags v + 4)) 0 = CHR ''b'' \<or> c_at (argv ! (flags v + 4)) 0 = CHR ''w''
             \<or> c_at (argv ! (flags v + 4)) 0 = CHR ''c'')"
  then show "\<exists>sz'. parse_mode argv v sz = Inr (sz', c_at (argv ! (flags v + 4)) 1 = CHR ''p'')"
    by (intro parse_mode_accepts) simp_all
next
  assume "parse_flags e argv opts0 = Inr v \<and> \<not> version v \<and> flags v + 3 \<le> length argv
        \<and> 0 \<le> lookup_i2c_bus e (argv ! (flags v + 1))
        \<and> 0 \<le> parse_i2c_address e (argv ! (flags v + 2))
        \<and> parse_daddress e argv v = Inr x
        \<and> (flags v + 4 < length argv \<longrightarrow>
             c_at (argv ! (flags v + 4)) 0 = CHR ''b'' \<or> c_at (argv ! (flags v + 4)) 0 = CHR ''w''
             \<or> c_at (argv ! (flags v + 4)) 0 = CHR ''c'')"
  then show "\<exists>c'. parse_args e argv = Inr c' \<and> flags c' = flags v
           \<and> pec c' = (flags v + 4 < length argv \<and> c_at (argv ! (flags v + 4)) 1 = CHR ''p'')"
    by (elim conjE) (rule parse_args_accepts, assumption+)
next
  assume ev: "Ioctl_PEC \<in> set (events (main e argv))"
  show "\<exists>c'. parse_args e argv = Inr c' \<and> pec c'"
  proof (cases "parse_args e argv")
    case (Inl out)
    from parse_args_Inl [OF Inl] ev Inl have False
      by (auto simp: main_def list_all_iff)
    then show ?thesis ..
  next
    case (Inr c')
    with ev have "Ioctl_PEC \<in> set (events (main_open e c'))"
      by (simp add: main_def)
    from events_main_open [OF this] have "pec c'"
      by (auto simp: writeaddr_def Let_def dest: Ioctl_PEC_pre_events split: if_splits)
    with Inr show ?thesis by simp
  qed
qed

text \<open>
  The mode \<open>bx\<close> is accepted as \<open>b\<close> with PEC off (by evaluation, and by the theorem from
  the stages before the mode), and the mode \<open>bp\<close> makes the run call the PEC ioctl.
\<close>

theorem pec_iff_mode_p_witness:
  "parse_args env_ok [''i2cget'', ''1'', ''0x48'', ''0x10'', ''bx''] =
     Inr \<lparr>flags = 0, force = False, yes = False, version = False, length_v = 0,
          i2cbus = 1, address = 0x48, size_v = I2C_SMBUS_BYTE_DATA, daddress = 16,
          daddrlen = 1, pec = False\<rparr>
   \<and> c_at (''bx'') 1 \<noteq> CHR ''p''
   \<and> Ioctl_PEC \<in> set (events (main env_ok [''i2cget'', ''-y'', ''1'', ''0x48'', ''0x10'', ''bp'']))
   \<and> (\<exists>c'. parse_args env_ok [''i2cget'', ''-y'', ''1'', ''0x48'', ''0x10'', ''bp''] = Inr c' \<and> pec c')
   \<and> (\<exists>c'. parse_args env_ok [''i2cget'', ''1'', ''0x48'', ''0x10'', ''bx''] = Inr c' \<and> \<not> pec c')"
proof -
  have 1: "parse_args env_ok [''i2cget'', ''1'', ''0x48'', ''0x10'', ''bx''] =
     Inr \<lparr>flags = 0, force = False, yes = False, version = False, length_v = 0,
          i2cbus = 1, address = 0x48, size_v = I2C_SMBUS_BYTE_DATA, daddress = 16,
          daddrlen = 1, pec = False\<rparr>"
    by (simp add: run_defs)
  have 2: "Ioctl_PEC \<in> set (events (main env_ok [''i2cget'', ''-y'', ''1'', ''0x48'', ''0x10'', ''bp'']))"
    by (simp add: run_defs)
  from pec_iff_mode_p [of env_ok "[''i2cget'', ''1'', ''0x48'', ''0x10'', ''bx'']"
      "\<lparr>flags = 0, force = False, yes = False, version = False, length_v = 0,
          i2cbus = 1, address = 0x48, size_v = I2C_SMBUS_BYTE_DATA, daddress = 16,
          daddrlen = 1, pec = False\<rparr>"] 1
  have 3: "c_at (''bx'') 1 \<noteq> CHR ''p''"
    by simp
  from pec_iff_mode_p [of env_ok "[''i2cget'', ''-y'', ''1'', ''0x48'', ''0x10'', ''bp'']"] 2
  have 4: "\<exists>c'. parse_args env_ok [''i2cget'', ''-y'', ''1'', ''0x48'', ''0x10'', ''bp''] = Inr c' \<and> pec c'"
    by blast
  let ?A = "[''i2cget'', ''1'', ''0x48'', ''0x10'', ''bx'']"
  let ?V = "\<lparr>flags = 0, force = False, yes = False, version = False, length_v = 0\<rparr>"
  have f: "parse_flags env_ok ?A opts0 = Inr ?V"
    and d: "parse_daddress env_ok ?A ?V = Inr (I2C_SMBUS_BYTE_DATA, 16, 1)"
    and b: "0 \<le> lookup_i2c_bus env_ok (?A ! (flags ?V + 1))"
      "0 \<le> parse_i2c_address env_ok (?A ! (flags ?V + 2))"
    and m: "c_at (?A ! (flags ?V + 4)) 0 = CHR ''b''"
    by (simp_all add: run_defs)
  from pec_iff_mode_p [where e = env_ok and argv = ?A and v = ?V
      and c = "\<lparr>flags = 0, force = False, yes = False, version = False, length_v = 0,
          i2cbus = 1, address = 0x48, size_v = I2C_SMBUS_BYTE_DATA, daddress = 16,
          daddrlen = 1, pec = False\<rparr>"
      and sz = I2C_SMBUS_BYTE_DATA and x = "(I2C_SMBUS_BYTE_DATA, 16, 1)"] f d b m
  have 5: "\<exists>c'. parse_args env_ok ?A = Inr c' \<and> \<not> pec c'"
    by (auto simp: c_at_def)
  from 1 2 3 4 5 show ?thesis by blast
qed

end
